theory Spec2Isabelle
  imports Main "HOL-Library.Word" "HOL-Library.Multiset"
begin

section \<open>HDF5 kernels of tensorflow-io: data model\<close>

text \<open>
  The embedding follows \<^verbatim>\<open>tensorflow_io/core/kernels/hdf5_kernels.cc\<close>.
  The HDF5 library and the TensorFlow framework are not part of that file; what the
  kernels observe of them (type descriptors, link tables, staging buffers, thrown
  exceptions) is data of the model.
\<close>

type_synonym int64 = "64 word"
type_synonym hsize_t = "64 word"
type_synonym haddr_t = nat
type_synonym byte = "8 word"

subsection \<open>Status values\<close>

datatype H5T_class_t =
    H5T_INTEGER | H5T_FLOAT | H5T_TIME | H5T_STRING | H5T_BITFIELD | H5T_OPAQUE
  | H5T_COMPOUND | H5T_REFERENCE | H5T_ENUM | H5T_VLEN | H5T_ARRAY

datatype H5T_sign_t = H5T_SGN_NONE | H5T_SGN_2

datatype H5T_order_t = H5T_ORDER_LE | H5T_ORDER_BE

datatype H5T_str_t = H5T_STR_NULLTERM | H5T_STR_NULLPAD | H5T_STR_SPACEPAD | H5T_STR_RESERVED nat

text \<open>
  \<^verbatim>\<open>errors::InvalidArgument(a, b, ...)\<close> concatenates its arguments into the message.
  The model keeps the argument list, so that what a message carries can be read off.
\<close>

datatype arg =
    Str string
  | Num int
  | Cls H5T_class_t
  | Pad H5T_str_t

datatype Status =
    InvalidArgument "arg list"
  | Unimplemented "arg list"

text \<open>
  The exception classes of the HDF5 C++ library; all derive from \<^verbatim>\<open>H5::Exception\<close> and
  none derives from another. An exception carries its detail message.
\<close>

datatype h5_exception_class =
    FileIException | GroupIException | DataSpaceIException | DataTypeIException
  | PropListIException | DataSetIException | AttributeIException | ReferenceException
  | LibraryIException | IdComponentException

datatype h5_exception = H5Exception h5_exception_class string

text \<open>
  How a call ends: it returns a value, returns a non-OK \<^verbatim>\<open>Status\<close>, leaves by a C++
  exception of the library, ends the process by a failed \<^verbatim>\<open>CHECK\<close> of the framework, or
  has no defined behaviour (an index outside a vector, a write outside a buffer, a null
  handle).
\<close>

datatype 'a result = Ok 'a | Error Status | Thrown h5_exception | Aborted | Undefined

fun and_then :: "'a result \<Rightarrow> ('a \<Rightarrow> 'b result) \<Rightarrow> 'b result" where
  "and_then (Ok x) k = k x"
| "and_then (Error st) k = Error st"
| "and_then (Thrown e) k = Thrown e"
| "and_then Aborted k = Aborted"
| "and_then Undefined k = Undefined"

text \<open>A library call that throws or returns.\<close>

fun lib :: "h5_exception + 'a \<Rightarrow> 'a result" where
  "lib (Inl e) = Thrown e"
| "lib (Inr x) = Ok x"

text \<open>\<^verbatim>\<open>for (i = a; i < b; i++) body\<close> is \<open>for_each [a..<b] body\<close>; a \<^verbatim>\<open>return\<close> or a throw in the
  body ends the loop.\<close>

fun for_each :: "nat list \<Rightarrow> (nat \<Rightarrow> 's \<Rightarrow> 's result) \<Rightarrow> 's \<Rightarrow> 's result" where
  "for_each [] body s = Ok s"
| "for_each (i # is) body s = and_then (body i s) (for_each is body)"

datatype DataType =
    DT_FLOAT | DT_DOUBLE | DT_INT32 | DT_UINT8 | DT_INT16 | DT_INT8 | DT_STRING
  | DT_COMPLEX64 | DT_INT64 | DT_BOOL | DT_UINT16 | DT_COMPLEX128 | DT_UINT32 | DT_UINT64

subsection \<open>Tensor shapes and element sizes\<close>

text \<open>
  \<^verbatim>\<open>DataTypeSize\<close> of the framework: the bytes of one element in the flat buffer of a
  tensor, and 0 for strings, whose elements are objects.
\<close>

fun DataTypeSize :: "DataType \<Rightarrow> nat" where
  "DataTypeSize DT_FLOAT = 4"
| "DataTypeSize DT_DOUBLE = 8"
| "DataTypeSize DT_INT32 = 4"
| "DataTypeSize DT_UINT8 = 1"
| "DataTypeSize DT_INT16 = 2"
| "DataTypeSize DT_INT8 = 1"
| "DataTypeSize DT_STRING = 0"
| "DataTypeSize DT_COMPLEX64 = 8"
| "DataTypeSize DT_INT64 = 8"
| "DataTypeSize DT_BOOL = 1"
| "DataTypeSize DT_UINT16 = 2"
| "DataTypeSize DT_COMPLEX128 = 16"
| "DataTypeSize DT_UINT32 = 4"
| "DataTypeSize DT_UINT64 = 8"

text \<open>
  A \<^verbatim>\<open>TensorShape\<close> is the list of its dimension sizes. The class belongs to the
  framework; it keeps the number of elements of the shape, the product of the sizes,
  which it computes size by size, and it ends the process by a failed \<^verbatim>\<open>CHECK\<close> when a
  size is negative, when there are more than 254 sizes, or when a product on the way
  is not below \<open>2 ^ 63\<close>. \<open>shape_elements n dims\<close> is that computation, started at \<open>n\<close>.
\<close>

fun shape_elements :: "int \<Rightarrow> int64 list \<Rightarrow> int option" where
  "shape_elements n [] = Some n"
| "shape_elements n (d # ds) =
     (if n * sint d < 2 ^ 63 then shape_elements (n * sint d) ds else None)"

definition TensorShape_ok :: "int64 list \<Rightarrow> bool" where
  "TensorShape_ok dim_sizes \<longleftrightarrow>
     length dim_sizes \<le> 254 \<and> list_all (\<lambda>d. 0 \<le>s d) dim_sizes \<and>
     shape_elements 1 dim_sizes \<noteq> None"

text \<open>The constructor \<^verbatim>\<open>TensorShape(dim_sizes)\<close>.\<close>

definition TensorShape_ctor :: "int64 list \<Rightarrow> int64 list result" where
  "TensorShape_ctor dim_sizes = (if TensorShape_ok dim_sizes then Ok dim_sizes else Aborted)"

text \<open>\<^verbatim>\<open>shape.set_dim(d, v)\<close>: the index is checked against \<^verbatim>\<open>dims()\<close>, the size against 0,
  and the number of elements is computed again.\<close>

definition set_dim :: "int64 list \<Rightarrow> nat \<Rightarrow> int64 \<Rightarrow> int64 list result" where
  "set_dim shape d v =
     (if d < length shape \<and> 0 \<le>s v \<and> shape_elements 1 (shape[d := v]) \<noteq> None
      then Ok (shape[d := v]) else Aborted)"

text \<open>\<^verbatim>\<open>TensorShape::num_elements\<close>\<close>

definition NumElements :: "int64 list \<Rightarrow> nat" where
  "NumElements shape = prod_list (map (\<lambda>d. nat (sint d)) shape)"

subsection \<open>Storage type descriptors\<close>

text \<open>
  What \<^verbatim>\<open>H5::DataType\<close> answers to the queries the kernels make: class, byte size,
  sign, string padding, compound and enumeration members. Equality of descriptors
  stands for \<^verbatim>\<open>H5Tequal\<close>.
\<close>

datatype h5type =
    IntType nat H5T_sign_t
  | FloatType nat H5T_order_t
  | StrType nat bool H5T_str_t
  | VlenType h5type
  | CompType nat "(string \<times> h5type) list"
  | EnumType nat "(string \<times> int) list"
  | OtherType H5T_class_t nat

fun getClass :: "h5type \<Rightarrow> H5T_class_t" where
  "getClass (IntType _ _) = H5T_INTEGER"
| "getClass (FloatType _ _) = H5T_FLOAT"
| "getClass (StrType _ _ _) = H5T_STRING"
| "getClass (VlenType _) = H5T_VLEN"
| "getClass (CompType _ _) = H5T_COMPOUND"
| "getClass (EnumType _ _) = H5T_ENUM"
| "getClass (OtherType c _) = c"

fun getSize :: "h5type \<Rightarrow> nat" where
  "getSize (IntType n _) = n"
| "getSize (FloatType n _) = n"
| "getSize (StrType n _ _) = n"
| "getSize (VlenType _) = 16"
| "getSize (CompType n _) = n"
| "getSize (EnumType n _) = n"
| "getSize (OtherType _ n) = n"

text \<open>\<^verbatim>\<open>getSign() ? a : b\<close>: the sign tag is tested for being nonzero.\<close>

fun getSign :: "H5T_sign_t \<Rightarrow> bool" where
  "getSign H5T_SGN_NONE = False"
| "getSign H5T_SGN_2 = True"

subsection \<open>Classification of a storage type (the switch of \<^verbatim>\<open>Init\<close>)\<close>

definition classify_integer :: "string \<Rightarrow> nat \<Rightarrow> H5T_sign_t \<Rightarrow> Status + DataType" where
  "classify_integer dataset sz sg =
     (if sz = 1 then Inr (if getSign sg then DT_INT8 else DT_UINT8)
      else if sz = 2 then Inr (if getSign sg then DT_INT16 else DT_UINT16)
      else if sz = 4 then Inr (if getSign sg then DT_INT32 else DT_UINT32)
      else if sz = 8 then Inr (if getSign sg then DT_INT64 else DT_UINT64)
      else Inl (InvalidArgument
             [Str ''unsupported data type size for '', Str dataset, Str '': '', Num (int sz)]))"

definition classify_float :: "string \<Rightarrow> nat \<Rightarrow> Status + DataType" where
  "classify_float dataset sz =
     (if sz = 4 then Inr DT_FLOAT
      else if sz = 8 then Inr DT_DOUBLE
      else Inl (InvalidArgument
             [Str ''unsupported data type size for '', Str dataset, Str '': '', Num (int sz)]))"

text \<open>
  The compound branch. \<^verbatim>\<open>getMemberName(0)\<close>, \<^verbatim>\<open>getMemberDataType(1)\<close> and so on are
  reached only after the member count has been found to be 2.
\<close>

definition classify_compound ::
  "string \<times> string \<Rightarrow> string \<Rightarrow> (string \<times> h5type) list \<Rightarrow> Status + DataType" where
  "classify_compound complex_names dataset ms =
     (if length ms \<noteq> 2 then
        Inl (InvalidArgument
          [Str ''unsupported compound members for '', Str dataset, Str '': '',
           Num (int (length ms))])
      else
        let n0 = fst (ms ! 0); n1 = fst (ms ! 1); t0 = snd (ms ! 0); t1 = snd (ms ! 1) in
        if n0 \<noteq> fst complex_names \<or> n1 \<noteq> snd complex_names then
          Inl (InvalidArgument
            [Str ''unsupported compound member names for '', Str dataset, Str '': '',
             Str n0, Str '', '', Str n1])
        else if t0 \<noteq> t1 then
          Inl (InvalidArgument
            [Str ''unsupported compound with different data type for '', Str dataset,
             Str '': '', Cls (getClass t0), Str '', '', Cls (getClass t1)])
        else if getClass t0 \<noteq> H5T_FLOAT then
          Inl (InvalidArgument
            [Str ''unsupported compound with non-float data class for '', Str dataset,
             Str '': '', Cls (getClass t0)])
        else if getSize t0 = 4 then Inr DT_COMPLEX64
        else if getSize t0 = 8 then Inr DT_COMPLEX128
        else
          Inl (InvalidArgument
            [Str ''unsupported data type size for compound'', Str dataset, Str '': '',
             Num (int (getSize t0))]))"

text \<open>
  The enumeration branch. \<^verbatim>\<open>getMemberIndex\<close> throws when the name is absent; both
  calls sit in one \<^verbatim>\<open>try\<close> whose handler is empty, so a throw of the first leaves both
  indices at 0 and a throw of the second leaves \<^verbatim>\<open>index_true\<close> at 0.
\<close>

fun getMemberIndex :: "(string \<times> int) list \<Rightarrow> string \<Rightarrow> nat option" where
  "getMemberIndex [] nm = None"
| "getMemberIndex (m # ms) nm =
     (if fst m = nm then Some 0 else map_option Suc (getMemberIndex ms nm))"

fun nameOf :: "(string \<times> int) list \<Rightarrow> int \<Rightarrow> string" where
  "nameOf [] v = []"
| "nameOf (m # ms) v = (if snd m = v then fst m else nameOf ms v)"

fun join_names :: "string list \<Rightarrow> string" where
  "join_names [] = []"
| "join_names [n] = n"
| "join_names (n # ns) = n @ '', '' @ join_names ns"

definition enum_is_bool :: "nat \<Rightarrow> (string \<times> int) list \<Rightarrow> bool" where
  "enum_is_bool sz ms =
     (if sz = 1 \<and> length ms = 2 then
        let index_false = (case getMemberIndex ms ''FALSE'' of None \<Rightarrow> 0 | Some i \<Rightarrow> i);
            index_true = (case getMemberIndex ms ''FALSE'' of None \<Rightarrow> 0
                          | Some _ \<Rightarrow> (case getMemberIndex ms ''TRUE'' of None \<Rightarrow> 0 | Some j \<Rightarrow> j));
            value_false = snd (ms ! 0);
            value_true = snd (ms ! 1)
        in index_false = 0 \<and> index_true = 1 \<and> value_false = 0 \<and> value_true = 1
      else False)"

definition classify_enum :: "nat \<Rightarrow> (string \<times> int) list \<Rightarrow> Status + DataType" where
  "classify_enum sz ms =
     (if enum_is_bool sz ms then Inr DT_BOOL
      else Inl (InvalidArgument
             [Str ''unsupported data class for enum: '',
              Str (''['' @ join_names (map (\<lambda>m. nameOf ms (snd m)) ms) @ '']'')]))"

fun classify :: "string \<times> string \<Rightarrow> string \<Rightarrow> h5type \<Rightarrow> Status + DataType" where
  "classify cn dataset (IntType sz sg) = classify_integer dataset sz sg"
| "classify cn dataset (FloatType sz _) = classify_float dataset sz"
| "classify cn dataset (StrType _ _ _) = Inr DT_STRING"
| "classify cn dataset (VlenType _) = Inr DT_STRING"
| "classify cn dataset (CompType _ ms) = classify_compound cn dataset ms"
| "classify cn dataset (EnumType sz ms) = classify_enum sz ms"
| "classify cn dataset (OtherType c _) =
     Inl (InvalidArgument [Str ''unsupported data class for '', Str dataset, Str '': '', Cls c])"


section \<open>The object graph walker (\<^verbatim>\<open>HDF5Iterate\<close>)\<close>

text \<open>
  A container is seen through its link tables: for each group address, the links of
  the group in native order. A link carries what \<^verbatim>\<open>H5Oget_info_by_name\<close> answers for its
  name: the returned \<^verbatim>\<open>herr_t\<close> and the \<^verbatim>\<open>type\<close> and \<^verbatim>\<open>addr\<close> fields then found in
  \<^verbatim>\<open>iteminfo\<close>. Several links may carry one address (hard links, cycles).
\<close>

datatype H5O_type_t =
  H5O_TYPE_UNKNOWN | H5O_TYPE_GROUP | H5O_TYPE_DATASET | H5O_TYPE_NAMED_DATATYPE

record link =
  lname :: string
  lerr :: int
  ltype :: H5O_type_t
  laddr :: haddr_t

type_synonym h5links = "(haddr_t \<times> link list) list"

text \<open>The members \<^verbatim>\<open>datasets_\<close>, \<^verbatim>\<open>groups_\<close> and \<^verbatim>\<open>parent_\<close>.\<close>

record HDF5Iterate =
  datasets :: "string list"
  groups :: "haddr_t \<rightharpoonup> string"
  parent :: haddr_t

text \<open>The constructor: \<^verbatim>\<open>parent_(root)\<close>, \<^verbatim>\<open>groups_[root] = ""\<close>.\<close>

definition HDF5Iterate_ctor :: "haddr_t \<Rightarrow> HDF5Iterate" where
  "HDF5Iterate_ctor root = \<lparr>datasets = [], groups = [root \<mapsto> []], parent = root\<rparr>"

text \<open>\<^verbatim>\<open>groups_[k]\<close> read on an \<^verbatim>\<open>unordered_map\<close>: an absent key is inserted with the
  empty string.\<close>

definition groups_at ::
  "(haddr_t \<rightharpoonup> string) \<Rightarrow> haddr_t \<Rightarrow> (haddr_t \<rightharpoonup> string) \<times> string" where
  "groups_at m k = (case m k of None \<Rightarrow> (m(k \<mapsto> []), []) | Some s \<Rightarrow> (m, s))"

text \<open>
  \<open>H5Literate_links\<close> is the library's iteration over the links of one group: it calls
  the operator on each link in turn and stops at the first nonzero return, which it
  returns. \<open>Iterate\<close> is the operator. \<^verbatim>\<open>H5Literate_by_name\<close> on a group iterates the links
  of that group, and fails without a call when there is no such group.
\<close>

function H5Literate_links :: "h5links \<Rightarrow> link list \<Rightarrow> HDF5Iterate \<Rightarrow> int \<times> HDF5Iterate"
  and Iterate :: "h5links \<Rightarrow> link \<Rightarrow> HDF5Iterate \<Rightarrow> int \<times> HDF5Iterate"
where
  "H5Literate_links f [] p = (0, p)"
| "H5Literate_links f (l # ls) p =
     (case Iterate f l p of
        (err, p') \<Rightarrow> if err \<noteq> 0 then (err, p') else H5Literate_links f ls p')"
| "Iterate f l p =
     (case ltype l of
        H5O_TYPE_GROUP \<Rightarrow>
          if groups p (laddr l) = None then
            let saved = parent p;
                (m, s) = groups_at (groups p) saved;
                p1 = p\<lparr>groups := m(laddr l \<mapsto> s @ ''/'' @ lname l), parent := laddr l\<rparr>;
                (err, p2) = (case map_of f (laddr l) of
                               None \<Rightarrow> (- 1, p1)
                             | Some ls \<Rightarrow> H5Literate_links f ls p1)
            in (err, p2\<lparr>parent := saved\<rparr>)
          else (lerr l, p)
      | H5O_TYPE_DATASET \<Rightarrow>
          let (m, s) = groups_at (groups p) (parent p)
          in (lerr l, p\<lparr>groups := m, datasets := datasets p @ [s @ ''/'' @ lname l]\<rparr>)
      | H5O_TYPE_NAMED_DATATYPE \<Rightarrow> (lerr l, p)
      | H5O_TYPE_UNKNOWN \<Rightarrow> (lerr l, p))"
  by pat_completeness auto

text \<open>
  Termination: a descent adds an address of the link tables to \<open>groups\<close>, and nothing
  is ever removed. That \<open>groups\<close> only grows is first shown where the functions are
  defined.
\<close>

lemma groups_at_dom: "groups_at m k = (m', s) \<Longrightarrow> dom m \<subseteq> dom m'"
  by (auto simp: groups_at_def split: option.splits)

lemma walk_dom_mono:
  "H5Literate_links_Iterate_dom (Inl (f, ls, p)) \<Longrightarrow>
     dom (groups p) \<subseteq> dom (groups (snd (H5Literate_links f ls p)))"
  "H5Literate_links_Iterate_dom (Inr (f, l, p)) \<Longrightarrow>
     dom (groups p) \<subseteq> dom (groups (snd (Iterate f l p)))"
proof (induction f ls p and f l p rule: H5Literate_links_Iterate.pinduct)
  case (1 f p)
  then show ?case by (simp add: H5Literate_links.psimps)
next
  case (2 f l ls p)
  obtain err p' where it: "Iterate f l p = (err, p')" by (cases "Iterate f l p")
  show ?case
  proof (cases "err = 0")
    case True
    from 2(3)[of err p'] it True
    have "dom (groups p') \<subseteq> dom (groups (snd (H5Literate_links f ls p')))" by simp
    moreover from 2(2) it have "dom (groups p) \<subseteq> dom (groups p')" by simp
    ultimately show ?thesis using 2(1) it True by (simp add: H5Literate_links.psimps)
  next
    case False
    with 2(1,2) it show ?thesis by (simp add: H5Literate_links.psimps)
  qed
next
  case (3 f l p)
  show ?case
  proof (cases "ltype l")
    case H5O_TYPE_GROUP
    show ?thesis
    proof (cases "groups p (laddr l) = None")
      case False
      with 3(1) H5O_TYPE_GROUP show ?thesis by (auto simp: Iterate.psimps)
    next
      case True
      obtain m s where ga: "groups_at (groups p) (parent p) = (m, s)"
        by (cases "groups_at (groups p) (parent p)")
      let ?p1 = "p\<lparr>groups := m(laddr l \<mapsto> s @ ''/'' @ lname l), parent := laddr l\<rparr>"
      have d1: "dom (groups p) \<subseteq> dom (groups ?p1)"
        using groups_at_dom[OF ga] by auto
      show ?thesis
      proof (cases "map_of f (laddr l)")
        case None
        with 3(1) H5O_TYPE_GROUP True ga d1 show ?thesis
          by (auto simp: Iterate.psimps)
      next
        case (Some ls)
        from 3(2)[OF H5O_TYPE_GROUP True refl refl ga[symmetric] refl Some]
        have "dom (groups ?p1) \<subseteq> dom (groups (snd (H5Literate_links f ls ?p1)))" .
        with d1 have "dom (groups p) \<subseteq> dom (groups (snd (H5Literate_links f ls ?p1)))"
          by blast
        with 3(1) H5O_TYPE_GROUP True ga Some show ?thesis
          by (auto simp: Iterate.psimps split: prod.splits)
      qed
    qed
  next
    case H5O_TYPE_DATASET
    obtain m s where ga: "groups_at (groups p) (parent p) = (m, s)"
      by (cases "groups_at (groups p) (parent p)")
    with 3(1) H5O_TYPE_DATASET groups_at_dom[OF ga] show ?thesis
      by (simp add: Iterate.psimps)
  qed (use 3(1) in \<open>simp_all add: Iterate.psimps\<close>)
qed

termination H5Literate_links
proof (relation "inv_image (less_than <*lex*> less_than)
    (\<lambda>x. case x of
       Inl (f, ls, p) \<Rightarrow> (card (fst ` set f - dom (groups p)), Suc (length ls))
     | Inr (f, l, p) \<Rightarrow> (card (fst ` set f - dom (groups p)), 0))", goal_cases)
  case 1
  show ?case by (intro wf_inv_image wf_lex_prod wf_less_than)
next
  case (2 f l ls p)
  show ?case by simp
next
  case (3 f l ls p err p')
  have "dom (groups p) \<subseteq> dom (groups (snd (Iterate f l p)))"
    using 3 walk_dom_mono(2) by blast
  moreover have "snd (Iterate f l p) = p'"
    using 3 by (metis snd_conv)
  ultimately have "dom (groups p) \<subseteq> dom (groups p')" by simp
  then have "card (fst ` set f - dom (groups p')) \<le> card (fst ` set f - dom (groups p))"
    by (intro card_mono) auto
  then show ?case by auto
next
  case (4 f l p saved ga m s p1 ls)
  have "laddr l \<in> fst ` set f" using 4 by (metis map_of_SomeD fst_conv image_eqI)
  moreover have "dom (groups p) \<subseteq> dom m"
    using groups_at_dom[of "groups p" saved m s] 4 by simp
  moreover have "groups p (laddr l) = None" "groups p1 = m(laddr l \<mapsto> s @ ''/'' @ lname l)"
    using 4 by simp_all
  ultimately have "fst ` set f - dom (groups p1) \<subset> fst ` set f - dom (groups p)"
    by auto
  then have "card (fst ` set f - dom (groups p1)) < card (fst ` set f - dom (groups p))"
    by (intro psubset_card_mono) auto
  then show ?case by simp
qed

declare Iterate.simps [simp del]

text \<open>\<^verbatim>\<open>H5Literate\<close> on the file: the links of the root group.\<close>

definition H5Literate :: "h5links \<Rightarrow> haddr_t \<Rightarrow> HDF5Iterate \<Rightarrow> int \<times> HDF5Iterate" where
  "H5Literate f root p =
     (case map_of f root of None \<Rightarrow> (- 1, p) | Some ls \<Rightarrow> H5Literate_links f ls p)"


section \<open>The container and the environment\<close>

text \<open>
  A selection is \<^verbatim>\<open>H5S_ALL\<close> (\<open>None\<close>) or a hyperslab given by its start and its count.
  A dataset answers the library calls of the kernels, each of which may throw. What
  \<^verbatim>\<open>DataSet::read\<close> stores depends on the memory type asked for: the bytes of the
  selected elements, or one \<^verbatim>\<open>char*\<close> per element, or one \<^verbatim>\<open>hvl_t\<close> per element; pointers
  are offsets into the memory that the library hands back with them.
\<close>

type_synonym selection = "(hsize_t list \<times> hsize_t list) option"

record hvl_t =
  hvl_len :: nat
  hvl_p :: nat

record h5dataset =
  getDataType :: "h5_exception + h5type"
  getSpace :: "h5_exception + hsize_t list"
  selectHyperslab :: "hsize_t list \<Rightarrow> hsize_t list \<Rightarrow> h5_exception option"
  read_bytes :: "selection \<Rightarrow> h5_exception + byte list"
  read_char_ptrs :: "selection \<Rightarrow> h5_exception + nat list \<times> byte list"
  read_hvl :: "selection \<Rightarrow> h5_exception + hvl_t list \<times> byte list"

record h5file =
  getObjinfo :: "h5_exception + haddr_t"
  links :: h5links
  openDataSet :: "string \<Rightarrow> h5_exception + h5dataset"

text \<open>
  The environment of \<^verbatim>\<open>HDF5FileImage\<close>: opening a local file with the library (which
  throws on failure), and reading a remote one through \<^verbatim>\<open>Env\<close> into memory, on which
  \<^verbatim>\<open>H5LTopen_file_image\<close> is called.
\<close>

record Env =
  H5File_open :: "string \<Rightarrow> h5_exception + h5file"
  GetFileSize :: "string \<Rightarrow> Status + nat"
  NewRandomAccessFile :: "string \<Rightarrow> Status + (nat \<Rightarrow> Status + byte list)"
  H5LTopen_file_image :: "byte list \<Rightarrow> h5file"

text \<open>\<^verbatim>\<open>filename.find("://") != string::npos\<close>\<close>

fun find_scheme :: "string \<Rightarrow> bool" where
  "find_scheme [] = False"
| "find_scheme (c # cs) = (take 3 (c # cs) = ''://'' \<or> find_scheme cs)"

text \<open>The constructor of \<^verbatim>\<open>HDF5FileImage\<close>; its value is what \<^verbatim>\<open>GetFile()\<close> then returns
  (\<open>None\<close> for the null pointer).\<close>

definition HDF5FileImage :: "Env \<Rightarrow> string \<Rightarrow> byte list \<Rightarrow> (h5file option) result" where
  "HDF5FileImage env fname optional_memory =
     (if length optional_memory \<noteq> 0 then Ok (Some (H5LTopen_file_image env optional_memory))
      else if \<not> find_scheme fname then
        and_then (lib (H5File_open env fname)) (\<lambda>file. Ok (Some file))
      else
        (case GetFileSize env fname of
           Inl _ \<Rightarrow> Ok None
         | Inr file_size \<Rightarrow>
             (case NewRandomAccessFile env fname of
                Inl _ \<Rightarrow> Ok None
              | Inr file \<Rightarrow>
                  (case file file_size of
                     Inl _ \<Rightarrow> Ok None
                   | Inr buffer_memory \<Rightarrow> Ok (Some (H5LTopen_file_image env buffer_memory))))))"

section \<open>The catalog (\<^verbatim>\<open>HDF5ReadableResource\<close>)\<close>

text \<open>The members \<^verbatim>\<open>filename_\<close>, \<^verbatim>\<open>file_image_\<close> (unset, or what its \<^verbatim>\<open>GetFile()\<close> returns),
  \<^verbatim>\<open>dtypes_\<close>, \<^verbatim>\<open>shapes_\<close>, \<^verbatim>\<open>columns_index_\<close> and \<^verbatim>\<open>complex_names_\<close>.\<close>

record HDF5ReadableResource =
  filename :: string
  file_image :: "h5file option option"
  dtypes :: "DataType list"
  shapes :: "int64 list list"
  columns_index :: "string \<rightharpoonup> nat"
  complex_names :: "string \<times> string"

definition HDF5ReadableResource_ctor :: HDF5ReadableResource where
  "HDF5ReadableResource_ctor =
     \<lparr>filename = [], file_image = None, dtypes = [], shapes = [],
      columns_index = Map.empty, complex_names = (''r'', ''i'')\<rparr>"

subsection \<open>\<^verbatim>\<open>Init\<close>\<close>

text \<open>One round of the loop over \<^verbatim>\<open>data.datasets_\<close>, up to the two \<^verbatim>\<open>emplace_back\<close>; the
  extent of the dataset, cast to \<^verbatim>\<open>int64\<close>, becomes a \<^verbatim>\<open>TensorShape\<close>.\<close>

definition Init_dataset ::
  "string \<times> string \<Rightarrow> h5file \<Rightarrow> string \<Rightarrow> (DataType \<times> int64 list) result" where
  "Init_dataset cn file dataset =
     and_then (lib (openDataSet file dataset)) (\<lambda>data_set.
     and_then (lib (getSpace data_set)) (\<lambda>dims.
     and_then (lib (getDataType data_set)) (\<lambda>data_type.
       (case classify cn dataset data_type of
          Inl st \<Rightarrow> Error st
        | Inr dtype \<Rightarrow> and_then (TensorShape_ctor dims) (\<lambda>shape. Ok (dtype, shape))))))"

fun Init_loop ::
  "h5file \<Rightarrow> string list \<Rightarrow> HDF5ReadableResource \<Rightarrow> unit result \<times> HDF5ReadableResource" where
  "Init_loop file [] r = (Ok (), r)"
| "Init_loop file (dataset # rest) r =
     (case Init_dataset (complex_names r) file dataset of
        Ok (dtype, shape) \<Rightarrow>
          Init_loop file rest (r\<lparr>dtypes := dtypes r @ [dtype], shapes := shapes r @ [shape]\<rparr>)
      | Error st \<Rightarrow> (Error st, r)
      | Thrown e \<Rightarrow> (Thrown e, r)
      | Aborted \<Rightarrow> (Aborted, r)
      | Undefined \<Rightarrow> (Undefined, r))"

text \<open>\<^verbatim>\<open>columns_index_[data.datasets_[i]] = i\<close> for \<open>i\<close> from 0.\<close>

fun index_columns :: "string list \<Rightarrow> nat \<Rightarrow> (string \<rightharpoonup> nat) \<Rightarrow> (string \<rightharpoonup> nat)" where
  "index_columns [] i m = m"
| "index_columns (d # ds) i m = index_columns ds (Suc i) (m(d \<mapsto> i))"

text \<open>
  \<^verbatim>\<open>Init\<close>. The \<^verbatim>\<open>herr_t\<close> that \<^verbatim>\<open>H5Literate\<close> returns is stored in a local variable that
  is not read again.
\<close>

definition Init ::
  "Env \<Rightarrow> string \<Rightarrow> HDF5ReadableResource \<Rightarrow> unit result \<times> HDF5ReadableResource" where
  "Init env input r0 =
     (let r = r0\<lparr>filename := input\<rparr> in
      case HDF5FileImage env input [] of
        Ok img \<Rightarrow>
          (let r = r\<lparr>file_image := Some img\<rparr> in
           case img of
             None \<Rightarrow> (Error (InvalidArgument [Str ''unable to open hdf5 file: '', Str input]), r)
           | Some file \<Rightarrow>
               (case getObjinfo file of
                  Inl e \<Rightarrow> (Thrown e, r)
                | Inr addr \<Rightarrow>
                    (let (err, data) = H5Literate (links file) addr (HDF5Iterate_ctor addr) in
                     case Init_loop file (datasets data) r of
                       (Ok _, r') \<Rightarrow>
                         (Ok (), r'\<lparr>columns_index :=
                                     index_columns (datasets data) 0 (columns_index r')\<rparr>)
                     | (out, r') \<Rightarrow> (out, r'))))
      | Error st \<Rightarrow> (Error st, r)
      | Thrown e \<Rightarrow> (Thrown e, r)
      | Aborted \<Rightarrow> (Aborted, r)
      | Undefined \<Rightarrow> (Undefined, r))"

subsection \<open>\<^verbatim>\<open>Spec\<close>\<close>

definition Spec :: "HDF5ReadableResource \<Rightarrow> string \<Rightarrow> (int64 list \<times> DataType) result" where
  "Spec r component =
     (case columns_index r component of
        None \<Rightarrow> Error (InvalidArgument [Str ''dataset '', Str component, Str '' not found''])
      | Some column_index \<Rightarrow>
          if column_index < length (shapes r) \<and> column_index < length (dtypes r)
          then Ok (shapes r ! column_index, dtypes r ! column_index)
          else Undefined)"


subsection \<open>\<^verbatim>\<open>Read\<close>\<close>

text \<open>
  Arithmetic on \<^verbatim>\<open>int64\<close> and \<^verbatim>\<open>hsize_t\<close> is on 64-bit words and wraps. In
  \<^verbatim>\<open>start[i] > dims[i]\<close> the left side is \<^verbatim>\<open>int64\<close> and the right side \<^verbatim>\<open>hsize_t\<close>, so both
  are compared as unsigned values, which is the order \<open><\<close> of words; \<open><s\<close> is the
  signed order.

  The validation of the requested region: the rank test and the loop over the
  dimensions, which also fills \<^verbatim>\<open>dims\<close> (the count) and \<^verbatim>\<open>dims_start\<close>.
\<close>

definition vec_get :: "'a list \<Rightarrow> nat \<Rightarrow> 'a result" where
  "vec_get v i = (if i < length v then Ok (v ! i) else Undefined)"

definition vec_set :: "'a list \<Rightarrow> nat \<Rightarrow> 'a \<Rightarrow> 'a list result" where
  "vec_set v i x = (if i < length v then Ok (v[i := x]) else Undefined)"

definition rank_mismatch :: "nat \<Rightarrow> nat \<Rightarrow> Status" where
  "rank_mismatch rank n =
     InvalidArgument [Str ''rank does not match: '', Num (int rank), Str '' vs. '', Num (int n)]"

definition out_of_boundary :: "nat \<Rightarrow> int64 \<Rightarrow> int64 \<Rightarrow> hsize_t \<Rightarrow> Status" where
  "out_of_boundary i start_i slice_i boundary =
     InvalidArgument
       [Str ''dimension ['', Num (int i), Str ''] out of boundary: start='', Num (sint start_i),
        Str '', slice='', Num (sint slice_i), Str '', boundary='', Num (uint boundary)]"

text \<open>One round of the loop over the dimensions.\<close>

definition region_step ::
  "int64 list \<Rightarrow> int64 list \<Rightarrow> nat \<Rightarrow> hsize_t list \<times> hsize_t list
     \<Rightarrow> (hsize_t list \<times> hsize_t list) result" where
  "region_step start shape =
     (\<lambda>i (dims, dims_start).
        and_then (vec_get start i) (\<lambda>start_i.
          if dims ! i < start_i \<or> dims ! i < start_i + shape ! i then
            Error (out_of_boundary i start_i (shape ! i) (dims ! i))
          else Ok (dims[i := shape ! i], dims_start[i := start_i])))"

definition check_region ::
  "int64 list \<Rightarrow> int64 list \<Rightarrow> hsize_t list \<Rightarrow> (hsize_t list \<times> hsize_t list) result" where
  "check_region start shape extent =
     (let rank = length extent in
      if rank \<noteq> length shape then Error (rank_mismatch rank (length shape))
      else for_each [0..<rank] (region_step start shape) (extent, replicate rank 0))"

text \<open>
  The contents of the output tensor: the bytes that a read stored from the start of
  its flat buffer, or its strings.

  \<^verbatim>\<open>data_set.read(value->flat<T>().data(), ...)\<close> stores what the library delivers for the
  selection into the flat buffer of the tensor, which holds \<open>capacity\<close> bytes: the number
  of elements of the shape it was allocated with, times the size of an element. A read
  that delivers more writes behind the buffer.
\<close>

datatype tensor_data = Raw "byte list" | Strings "byte list list"

definition read_raw :: "h5dataset \<Rightarrow> selection \<Rightarrow> nat \<Rightarrow> tensor_data result" where
  "read_raw data_set space capacity =
     and_then (lib (read_bytes data_set space))
       (\<lambda>b. if length b \<le> capacity then Ok (Raw b) else Undefined)"

text \<open>\<^verbatim>\<open>string(p)\<close> reads up to the first zero byte; \<^verbatim>\<open>string(p, len)\<close> reads \<^verbatim>\<open>len\<close> bytes.\<close>

definition string_of_ptr :: "byte list \<Rightarrow> nat \<Rightarrow> byte list" where
  "string_of_ptr mem q = takeWhile (\<lambda>b. b \<noteq> 0) (drop q mem)"

definition string_of_ptr_len :: "byte list \<Rightarrow> nat \<Rightarrow> nat \<Rightarrow> byte list" where
  "string_of_ptr_len mem q n = take n (drop q mem)"

text \<open>The two \<^verbatim>\<open>while\<close> loops over a fixed-length field that starts at offset \<open>q\<close>.\<close>

function nullterm_len :: "byte list \<Rightarrow> nat \<Rightarrow> nat \<Rightarrow> nat \<Rightarrow> nat" where
  "nullterm_len buf q sz len =
     (if len < sz \<and> buf ! (q + len) \<noteq> 0 then nullterm_len buf q sz (Suc len) else len)"
  by pat_completeness auto
termination
  by (relation "measure (\<lambda>(buf, q, sz, len). sz - len)") auto

function nullpad_len :: "byte list \<Rightarrow> nat \<Rightarrow> nat \<Rightarrow> nat" where
  "nullpad_len buf q len =
     (if 0 < len \<and> buf ! (q + (len - 1)) = 0 then nullpad_len buf q (len - 1) else len)"
  by pat_completeness auto
termination
  by (relation "measure (\<lambda>(buf, q, len). len)") auto

declare nullterm_len.simps [simp del]
declare nullpad_len.simps [simp del]

text \<open>The \<^verbatim>\<open>switch\<close> on \<^verbatim>\<open>getStrpad()\<close>; it has no \<^verbatim>\<open>default\<close>, so any other padding leaves
  the strings of the freshly allocated tensor empty.\<close>

definition decode_fixed :: "H5T_str_t \<Rightarrow> nat \<Rightarrow> nat \<Rightarrow> byte list \<Rightarrow> tensor_data result" where
  "decode_fixed pad sz numel buffer =
     (case pad of
        H5T_STR_NULLTERM \<Rightarrow>
          Ok (Strings (map (\<lambda>i. string_of_ptr_len buffer (sz * i)
                                  (nullterm_len buffer (sz * i) sz 0)) [0..<numel]))
      | H5T_STR_NULLPAD \<Rightarrow>
          Ok (Strings (map (\<lambda>i. string_of_ptr_len buffer (sz * i)
                                  (nullpad_len buffer (sz * i) sz)) [0..<numel]))
      | H5T_STR_SPACEPAD \<Rightarrow>
          Error (InvalidArgument [Str ''string pad type not supported: '', Pad H5T_STR_SPACEPAD])
      | H5T_STR_RESERVED k \<Rightarrow> Ok (Strings (replicate numel [])))"

text \<open>
  The \<^verbatim>\<open>switch\<close> on \<^verbatim>\<open>dtypes_[column_index]\<close>; \<open>numel\<close> is \<^verbatim>\<open>value->NumElements()\<close>. The twelve
  numeric and complex cases are the same call of \<^verbatim>\<open>read\<close> into the flat buffer of the
  tensor. The staging buffers of the string cases are allocated with \<open>numel\<close> entries
  (\<open>sz * numel\<close> bytes for fixed-length strings) and not initialised: a read that delivers
  more writes behind the buffer, and a pointer or record that the read did not store
  is not initialised when the loop uses it. Bytes of a fixed-length staging buffer that
  the read did not store are indeterminate (\<open>buffer ! k\<close> beyond the length of what was
  read). \<^verbatim>\<open>vlenReclaim\<close> after the copy is taken to return.
\<close>

definition Read_decode ::
  "DataType \<Rightarrow> h5dataset \<Rightarrow> h5type \<Rightarrow> selection \<Rightarrow> nat \<Rightarrow> tensor_data result" where
  "Read_decode dtype data_set data_type space numel =
     (case dtype of
        DT_STRING \<Rightarrow>
          (case data_type of
             StrType sz variable pad \<Rightarrow>
               if variable then
                 and_then (lib (read_char_ptrs data_set space)) (\<lambda>(buffer, mem).
                   if length buffer \<noteq> numel then Undefined
                   else Ok (Strings (map (\<lambda>i. string_of_ptr mem (buffer ! i)) [0..<numel])))
               else
                 and_then (lib (read_bytes data_set space)) (\<lambda>buffer.
                   if sz * numel < length buffer then Undefined
                   else decode_fixed pad sz numel buffer)
           | VlenType _ \<Rightarrow>
               and_then (lib (read_hvl data_set space)) (\<lambda>(buffer, mem).
                 if length buffer \<noteq> numel then Undefined
                 else Ok (Strings (map (\<lambda>i. string_of_ptr_len mem (hvl_p (buffer ! i))
                                              (hvl_len (buffer ! i))) [0..<numel])))
           | _ \<Rightarrow>
               Error (Unimplemented
                 [Str ''data type class for string not supported: '', Cls (getClass data_type)]))
      | DT_BOOL \<Rightarrow>
          (case data_type of
             EnumType sz ms \<Rightarrow>
               (case classify_enum sz ms of
                  Inl st \<Rightarrow> Error st
                | Inr _ \<Rightarrow> read_raw data_set space (numel * DataTypeSize DT_BOOL))
           | _ \<Rightarrow>
               Error (Unimplemented
                 [Str ''data type class for bool not supported: '', Cls (getClass data_type)]))
      | _ \<Rightarrow> read_raw data_set space (numel * DataTypeSize dtype))"

text \<open>The body of the \<^verbatim>\<open>try\<close> block.\<close>

definition Read_try ::
  "HDF5ReadableResource \<Rightarrow> h5file \<Rightarrow> nat \<Rightarrow> string \<Rightarrow> int64 list \<Rightarrow> int64 list
     \<Rightarrow> tensor_data result" where
  "Read_try r file column_index component start shape =
     and_then (lib (openDataSet file component)) (\<lambda>data_set.
     and_then (lib (getDataType data_set)) (\<lambda>data_type.
     and_then (lib (getSpace data_set)) (\<lambda>extent.
     and_then
       (if length shape \<noteq> 0 then
          and_then (check_region start shape extent) (\<lambda>(dims, dims_start).
            case selectHyperslab data_set dims dims_start of
              Some e \<Rightarrow> Thrown e
            | None \<Rightarrow> Ok (Some (dims_start, dims)))
        else Ok None)
       (\<lambda>space.
          and_then (vec_get (dtypes r) column_index) (\<lambda>dtype.
            Read_decode dtype data_set data_type space (NumElements shape))))))"

text \<open>The two \<^verbatim>\<open>catch\<close> clauses.\<close>

definition Read_catch :: "string \<Rightarrow> 'a result \<Rightarrow> 'a result" where
  "Read_catch fname res =
     (case res of
        Thrown e \<Rightarrow>
          (case e of H5Exception cls msg \<Rightarrow>
             if cls = FileIException then
               Error (InvalidArgument
                 [Str ''unable to open dataset file '', Str fname, Str '': '', Str msg])
             else if cls = DataSetIException then
               Error (InvalidArgument
                 [Str ''unable to process dataset file'', Str fname, Str '': '', Str msg])
             else Thrown e)
      | _ \<Rightarrow> res)"

text \<open>\<^verbatim>\<open>Read\<close>; on success the value is the shape the output was allocated with and its
  contents.\<close>

definition Read ::
  "HDF5ReadableResource \<Rightarrow> string \<Rightarrow> int64 list \<Rightarrow> int64 list \<Rightarrow> (int64 list \<Rightarrow> Status option)
     \<Rightarrow> (int64 list \<times> tensor_data) result" where
  "Read r component start shape allocate_func =
     (case columns_index r component of
        None \<Rightarrow> Error (InvalidArgument [Str ''dataset '', Str component, Str '' not found''])
      | Some column_index \<Rightarrow>
          (case allocate_func shape of
             Some st \<Rightarrow> Error st
           | None \<Rightarrow>
               (case file_image r of
                  Some (Some file) \<Rightarrow>
                    and_then
                      (Read_catch (filename r)
                         (Read_try r file column_index component start shape))
                      (\<lambda>data. Ok (shape, data))
                | _ \<Rightarrow> Undefined)))"

section \<open>The read kernel (\<^verbatim>\<open>HDF5ReadableReadOp::ResourceKernel\<close>)\<close>

text \<open>An \<^verbatim>\<open>int64\<close> input tensor: its shape and its elements in row-major order. The
  inputs of the op are given; the shape of the request is the \<^verbatim>\<open>TensorShape\<close> constructed
  from the elements of the shape input.\<close>

record int_tensor =
  tdims :: "nat list"
  tflat :: "int64 list"

definition num_elements :: "int_tensor \<Rightarrow> nat" where
  "num_elements t = length (tflat t)"

text \<open>
  \<^verbatim>\<open>start\<close> is constructed with \<^verbatim>\<open>shape.dims()\<close> entries and \<^verbatim>\<open>stop\<close> with
  \<^verbatim>\<open>stop_tensor->shape().dims()\<close> entries; \<^verbatim>\<open>operator[]\<close> of \<^verbatim>\<open>absl::InlinedVector\<close> is defined
  below \<^verbatim>\<open>size()\<close> only.
\<close>

definition ReadOp_start :: "int64 list \<Rightarrow> int_tensor \<Rightarrow> int64 list result" where
  "ReadOp_start shape start_tensor =
     and_then
       (for_each [0..<num_elements start_tensor]
          (\<lambda>i start. vec_set start i (tflat start_tensor ! i))
          (replicate (length shape) 0))
       (for_each [num_elements start_tensor..<length shape]
          (\<lambda>i start. vec_set start i 0))"

definition ReadOp_stop :: "int64 list \<Rightarrow> int_tensor \<Rightarrow> int64 list result" where
  "ReadOp_stop shape stop_tensor =
     and_then
       (for_each [0..<num_elements stop_tensor]
          (\<lambda>i stop. vec_set stop i (tflat stop_tensor ! i))
          (replicate (length (tdims stop_tensor)) 0))
       (for_each [num_elements stop_tensor..<length shape]
          (\<lambda>i stop. vec_set stop i (shape ! i)))"

text \<open>The loop that clamps \<^verbatim>\<open>stop\<close> and \<^verbatim>\<open>start\<close>, and the loop that sets the shape;
  \<^verbatim>\<open>stop[i] - start[i]\<close> is a difference of 64-bit words.\<close>

definition clamp_step ::
  "int64 list \<Rightarrow> nat \<Rightarrow> int64 list \<times> int64 list \<Rightarrow> (int64 list \<times> int64 list) result" where
  "clamp_step shape =
     (\<lambda>i (start, stop).
        and_then (vec_get stop i) (\<lambda>stop_i.
        and_then (if stop_i <s 0 \<or> shape ! i <s stop_i
                  then vec_set stop i (shape ! i) else Ok stop) (\<lambda>stop.
        and_then (vec_get start i) (\<lambda>start_i.
        and_then (vec_get stop i) (\<lambda>stop_i.
        and_then (if stop_i <s start_i
                  then vec_set start i stop_i else Ok start) (\<lambda>start.
          Ok (start, stop)))))))"

definition ReadOp_clamp ::
  "int64 list \<Rightarrow> int64 list \<times> int64 list \<Rightarrow> (int64 list \<times> int64 list) result" where
  "ReadOp_clamp shape = for_each [0..<length shape] (clamp_step shape)"

definition ReadOp_shape :: "int64 list \<Rightarrow> int64 list \<Rightarrow> int64 list \<Rightarrow> int64 list result" where
  "ReadOp_shape shape start stop =
     for_each [0..<length shape]
       (\<lambda>i shape.
          and_then (vec_get stop i) (\<lambda>stop_i.
          and_then (vec_get start i) (\<lambda>start_i.
            set_dim shape i (stop_i - start_i))))
       shape"

definition ResourceKernel ::
  "HDF5ReadableResource \<Rightarrow> string \<Rightarrow> int_tensor \<Rightarrow> int_tensor \<Rightarrow> int_tensor
     \<Rightarrow> (int64 list \<Rightarrow> Status option) \<Rightarrow> (int64 list \<times> tensor_data) result" where
  "ResourceKernel resource component shape_tensor start_tensor stop_tensor allocate_output =
     and_then (TensorShape_ctor (tflat shape_tensor)) (\<lambda>shape.
      and_then (ReadOp_start shape start_tensor) (\<lambda>start.
      and_then (ReadOp_stop shape stop_tensor) (\<lambda>stop.
      and_then (ReadOp_clamp shape (start, stop)) (\<lambda>(start, stop).
      and_then (ReadOp_shape shape start stop) (\<lambda>shape.
        Read resource component start shape allocate_output)))))"


section \<open>A small container for concrete runs\<close>

text \<open>A one-dimensional dataset of one-byte elements on which no library call throws,
  with the given type and extent; a read returns the selected bytes. A file whose root
  group (address 0) links that one dataset.\<close>

definition plain_dataset :: "h5type \<Rightarrow> hsize_t list \<Rightarrow> byte list \<Rightarrow> h5dataset" where
  "plain_dataset ty extent bytes =
     \<lparr>getDataType = Inr ty, getSpace = Inr extent, selectHyperslab = (\<lambda>_ _. None),
      read_bytes = (\<lambda>sel. Inr (case sel of
                                  None \<Rightarrow> bytes
                                | Some (start, cnt) \<Rightarrow>
                                    take (unat (hd cnt)) (drop (unat (hd start)) bytes))),
      read_char_ptrs = (\<lambda>_. Inr ([], [])),
      read_hvl = (\<lambda>_. Inr ([], []))\<rparr>"

definition single_file :: "string \<Rightarrow> h5dataset \<Rightarrow> h5file" where
  "single_file name ds =
     \<lparr>getObjinfo = Inr 0,
      links = [(0, [\<lparr>lname = name, lerr = 0, ltype = H5O_TYPE_DATASET, laddr = 1\<rparr>])],
      openDataSet = (\<lambda>path. if path = ''/'' @ name then Inr ds
                             else Inl (H5Exception FileIException ''object not found''))\<rparr>"

definition catalog_of :: "string \<Rightarrow> h5file \<Rightarrow> string \<Rightarrow> DataType \<Rightarrow> int64 list \<Rightarrow> HDF5ReadableResource" where
  "catalog_of fname file path dtype shape =
     \<lparr>filename = fname, file_image = Some (Some file), dtypes = [dtype], shapes = [shape],
      columns_index = [path \<mapsto> 0], complex_names = (''r'', ''i'')\<rparr>"

text \<open>A dataset of strings on which no library call throws: the staging buffer of a
  fixed-length read is \<open>mem\<close>; a variable-length read yields the pointers or the records,
  into \<open>mem\<close>.\<close>

definition string_dataset ::
  "h5type \<Rightarrow> hsize_t list \<Rightarrow> nat list \<Rightarrow> hvl_t list \<Rightarrow> byte list \<Rightarrow> h5dataset" where
  "string_dataset ty extent ptrs recs mem =
     \<lparr>getDataType = Inr ty, getSpace = Inr extent, selectHyperslab = (\<lambda>_ _. None),
      read_bytes = (\<lambda>_. Inr mem), read_char_ptrs = (\<lambda>_. Inr (ptrs, mem)),
      read_hvl = (\<lambda>_. Inr (recs, mem))\<rparr>"

text \<open>A local file whose root group links the dataset \<open>a\<close>, then a name whose object
  information cannot be read, then the dataset \<open>b\<close>.\<close>

definition broken_walk_file :: h5file where
  "broken_walk_file =
     \<lparr>getObjinfo = Inr 0,
      links = [(0, [\<lparr>lname = ''a'', lerr = 0, ltype = H5O_TYPE_DATASET, laddr = 1\<rparr>,
                    \<lparr>lname = ''dangling'', lerr = - 1, ltype = H5O_TYPE_UNKNOWN, laddr = 0\<rparr>,
                    \<lparr>lname = ''b'', lerr = 0, ltype = H5O_TYPE_DATASET, laddr = 2\<rparr>])],
      openDataSet = (\<lambda>path. Inr (plain_dataset (IntType 1 H5T_SGN_2) [10] []))\<rparr>"

definition local_env :: "h5file \<Rightarrow> Env" where
  "local_env fl =
     \<lparr>H5File_open = (\<lambda>_. Inr fl),
      GetFileSize = (\<lambda>_. Inr 0),
      NewRandomAccessFile = (\<lambda>_. Inr (\<lambda>_. Inr [])),
      H5LTopen_file_image = (\<lambda>_. fl)\<rparr>"

text \<open>The arguments that a status message is built from.\<close>

definition error_args :: "Status \<Rightarrow> arg list" where
  "error_args st = (case st of InvalidArgument as \<Rightarrow> as | Unimplemented as \<Rightarrow> as)"

section \<open>Vocabulary of the properties\<close>

text \<open>
  The links of a group; the paths that the dataset links of a group get under the path
  \<open>s\<close> of the group; and the listing in which every group of a set contributes each of
  its dataset links once, under the path that \<open>m\<close> records for the group.
\<close>

definition links_of :: "h5links \<Rightarrow> haddr_t \<Rightarrow> link list" where
  "links_of f a = (case map_of f a of None \<Rightarrow> [] | Some ls \<Rightarrow> ls)"

definition dataset_paths :: "string \<Rightarrow> link list \<Rightarrow> string list" where
  "dataset_paths s ls =
     map (\<lambda>l. s @ ''/'' @ lname l) (filter (\<lambda>l. ltype l = H5O_TYPE_DATASET) ls)"

definition group_listing :: "h5links \<Rightarrow> (haddr_t \<rightharpoonup> string) \<Rightarrow> haddr_t set \<Rightarrow> string multiset" where
  "group_listing f m A = (\<Sum>a\<in>A. mset (dataset_paths (the (m a)) (links_of f a)))"

text \<open>
  What a run of the walker over the links \<open>ls\<close> of the current parent does to its state:
  the parent is restored, \<open>groups\<close> only grows, by finitely many addresses, and the
  datasets appended are among the dataset links of \<open>ls\<close> and the listing of the groups
  that were added.
\<close>

definition walk_post :: "h5links \<Rightarrow> link list \<Rightarrow> HDF5Iterate \<Rightarrow> HDF5Iterate \<Rightarrow> bool" where
  "walk_post f ls p p' \<longleftrightarrow>
     parent p' = parent p \<and> groups p \<subseteq>\<^sub>m groups p' \<and>
     finite (dom (groups p') - dom (groups p)) \<and>
     (\<exists>new. datasets p' = datasets p @ new \<and>
        mset new \<subseteq># mset (dataset_paths (the (groups p (parent p))) ls) +
                     group_listing f (groups p') (dom (groups p') - dom (groups p)))"

text \<open>
  A link table without failure: every lookup of object information returns 0, and
  every group link leads to a group of the table. \<open>walk_eq\<close> is \<open>walk_post\<close> with the
  datasets appended being exactly the dataset links of \<open>ls\<close> and the listing of the
  groups that were added.
\<close>

definition link_ok :: "h5links \<Rightarrow> link \<Rightarrow> bool" where
  "link_ok f l \<longleftrightarrow> lerr l = 0 \<and> (ltype l = H5O_TYPE_GROUP \<longrightarrow> map_of f (laddr l) \<noteq> None)"

definition links_ok :: "h5links \<Rightarrow> bool" where
  "links_ok f \<longleftrightarrow> list_all (\<lambda>g. list_all (link_ok f) (snd g)) f"

definition walk_eq :: "h5links \<Rightarrow> link list \<Rightarrow> HDF5Iterate \<Rightarrow> HDF5Iterate \<Rightarrow> bool" where
  "walk_eq f ls p p' \<longleftrightarrow>
     parent p' = parent p \<and> groups p \<subseteq>\<^sub>m groups p' \<and>
     finite (dom (groups p') - dom (groups p)) \<and>
     (\<exists>new. datasets p' = datasets p @ new \<and>
        mset new = mset (dataset_paths (the (groups p (parent p))) ls) +
                   group_listing f (groups p') (dom (groups p') - dom (groups p)))"

text \<open>
  The checks of the calls \<^verbatim>\<open>shape.set_dim(k, new[k])\<close> for \<open>k\<close> from 0: each size is not
  negative, and the shape with the sizes up to \<open>k\<close> replaced has a number of elements.
\<close>

definition set_dim_checks :: "int64 list \<Rightarrow> int64 list \<Rightarrow> bool" where
  "set_dim_checks old new \<longleftrightarrow>
     list_all (\<lambda>k. 0 \<le>s new ! k \<and>
                   shape_elements 1 (take (Suc k) new @ drop (Suc k) old) \<noteq> None)
       [0..<length old]"

text \<open>The two clamps on one dimension, as functions.\<close>

definition clamp_stop :: "int64 \<Rightarrow> int64 \<Rightarrow> int64" where
  "clamp_stop d s = (if s <s 0 \<or> d <s s then d else s)"

definition clamp_start :: "int64 \<Rightarrow> int64 \<Rightarrow> int64" where
  "clamp_start a b = (if b <s a then b else a)"

section \<open>Properties of the classification\<close>

text \<open>
  C5. Integer storage of byte width 1, 2, 4 or 8 is classified as the signed or
  unsigned integer type of that width, according to the sign of the storage type;
  float storage of width 4 is \<open>DT_FLOAT\<close> and of width 8 \<open>DT_DOUBLE\<close>; every other integer
  or float width fails with \<open>InvalidArgument\<close>.
\<close>

theorem classify_integer_float:
  "classify cn ds (IntType 1 H5T_SGN_2) = Inr DT_INT8 \<and>
   classify cn ds (IntType 1 H5T_SGN_NONE) = Inr DT_UINT8 \<and>
   classify cn ds (IntType 2 H5T_SGN_2) = Inr DT_INT16 \<and>
   classify cn ds (IntType 2 H5T_SGN_NONE) = Inr DT_UINT16 \<and>
   classify cn ds (IntType 4 H5T_SGN_2) = Inr DT_INT32 \<and>
   classify cn ds (IntType 4 H5T_SGN_NONE) = Inr DT_UINT32 \<and>
   classify cn ds (IntType 8 H5T_SGN_2) = Inr DT_INT64 \<and>
   classify cn ds (IntType 8 H5T_SGN_NONE) = Inr DT_UINT64 \<and>
   classify cn ds (FloatType 4 ord) = Inr DT_FLOAT \<and>
   classify cn ds (FloatType 8 ord) = Inr DT_DOUBLE \<and>
   (sz \<notin> {1, 2, 4, 8} \<longrightarrow>
      classify cn ds (IntType sz sg) =
        Inl (InvalidArgument
          [Str ''unsupported data type size for '', Str ds, Str '': '', Num (int sz)])) \<and>
   (sz \<notin> {4, 8} \<longrightarrow>
      classify cn ds (FloatType sz ord) =
        Inl (InvalidArgument
          [Str ''unsupported data type size for '', Str ds, Str '': '', Num (int sz)]))"
  by (simp add: classify_integer_def classify_float_def)

theorem classify_integer_float_witness:
  "classify (''r'', ''i'') ''/d'' (IntType 3 H5T_SGN_2) =
     Inl (InvalidArgument [Str ''unsupported data type size for '', Str ''/d'', Str '': '', Num 3]) \<and>
   classify (''r'', ''i'') ''/d'' (FloatType 3 H5T_ORDER_LE) =
     Inl (InvalidArgument [Str ''unsupported data type size for '', Str ''/d'', Str '': '', Num 3]) \<and>
   classify (''r'', ''i'') ''/d'' (IntType 4 H5T_SGN_2) = Inr DT_INT32"
  using classify_integer_float [of "(''r'', ''i'')" "''/d''" H5T_ORDER_LE 3 H5T_SGN_2]
  by simp


text \<open>
  C4 as the code has it. A compound is classified as \<open>DT_COMPLEX64\<close> or \<open>DT_COMPLEX128\<close>
  exactly when it has two members, named as the configured pair in that order, of one
  and the same type, which is a float of size 4 or 8. Every other compound fails with
  \<open>InvalidArgument\<close>, and the message reports the first check that failed: the member
  count; else the two member names; else the classes of the two member types; else the
  class of member 0; else the size of member 0.
\<close>

theorem classify_compound_cases:
  "(classify cn ds (CompType n ms) = Inr dt \<longleftrightarrow>
      (\<exists>t. ms = [(fst cn, t), (snd cn, t)] \<and> getClass t = H5T_FLOAT \<and>
           (getSize t = 4 \<and> dt = DT_COMPLEX64 \<or> getSize t = 8 \<and> dt = DT_COMPLEX128))) \<and>
   (length ms \<noteq> 2 \<longrightarrow>
      classify cn ds (CompType n ms) =
        Inl (InvalidArgument
          [Str ''unsupported compound members for '', Str ds, Str '': '', Num (int (length ms))])) \<and>
   (n0 \<noteq> fst cn \<or> n1 \<noteq> snd cn \<longrightarrow>
      classify cn ds (CompType n [(n0, t0), (n1, t1)]) =
        Inl (InvalidArgument
          [Str ''unsupported compound member names for '', Str ds, Str '': '',
           Str n0, Str '', '', Str n1])) \<and>
   (t0 \<noteq> t1 \<longrightarrow>
      classify cn ds (CompType n [(fst cn, t0), (snd cn, t1)]) =
        Inl (InvalidArgument
          [Str ''unsupported compound with different data type for '', Str ds, Str '': '',
           Cls (getClass t0), Str '', '', Cls (getClass t1)])) \<and>
   (getClass t \<noteq> H5T_FLOAT \<longrightarrow>
      classify cn ds (CompType n [(fst cn, t), (snd cn, t)]) =
        Inl (InvalidArgument
          [Str ''unsupported compound with non-float data class for '', Str ds, Str '': '',
           Cls (getClass t)])) \<and>
   (getClass t = H5T_FLOAT \<and> getSize t \<noteq> 4 \<and> getSize t \<noteq> 8 \<longrightarrow>
      classify cn ds (CompType n [(fst cn, t), (snd cn, t)]) =
        Inl (InvalidArgument
          [Str ''unsupported data type size for compound'', Str ds, Str '': '',
           Num (int (getSize t))]))"
proof -
  have ok: "classify_compound cn ds ms = Inr dt \<longleftrightarrow>
      (\<exists>t. ms = [(fst cn, t), (snd cn, t)] \<and> getClass t = H5T_FLOAT \<and>
           (getSize t = 4 \<and> dt = DT_COMPLEX64 \<or> getSize t = 8 \<and> dt = DT_COMPLEX128))"
  proof (cases "length ms = 2")
    case False
    then show ?thesis by (auto simp: classify_compound_def)
  next
    case True
    then obtain a b where ms: "ms = [a, b]"
      by (cases ms; cases "tl ms") auto
    show ?thesis
      unfolding ms classify_compound_def Let_def
      by (cases a; cases b) auto
  qed
  show ?thesis
    unfolding classify.simps ok
    by (simp add: classify_compound_def)
qed

theorem classify_compound_cases_witness:
  "classify (''r'', ''i'') ''/c''
     (CompType 8 [(''r'', FloatType 4 H5T_ORDER_LE), (''i'', FloatType 4 H5T_ORDER_LE)]) =
     Inr DT_COMPLEX64 \<and>
   classify (''r'', ''i'') ''/c''
     (CompType 8 [(''re'', FloatType 4 H5T_ORDER_LE), (''im'', FloatType 4 H5T_ORDER_LE)]) =
     Inl (InvalidArgument
       [Str ''unsupported compound member names for '', Str ''/c'', Str '': '',
        Str ''re'', Str '', '', Str ''im'']) \<and>
   classify (''r'', ''i'') ''/c''
     (CompType 12 [(''r'', FloatType 4 H5T_ORDER_LE), (''i'', FloatType 8 H5T_ORDER_LE)]) =
     Inl (InvalidArgument
       [Str ''unsupported compound with different data type for '', Str ''/c'', Str '': '',
        Cls H5T_FLOAT, Str '', '', Cls H5T_FLOAT])"
  using
    classify_compound_cases [of "(''r'', ''i'')" "''/c''" 8
      "[(''r'', FloatType 4 H5T_ORDER_LE), (''i'', FloatType 4 H5T_ORDER_LE)]" DT_COMPLEX64
      "''re''" "''im''" "FloatType 4 H5T_ORDER_LE" "FloatType 4 H5T_ORDER_LE"
      "FloatType 4 H5T_ORDER_LE"]
    classify_compound_cases [of "(''r'', ''i'')" "''/c''" 12
      "[(''r'', FloatType 4 H5T_ORDER_LE), (''i'', FloatType 8 H5T_ORDER_LE)]" DT_COMPLEX64
      "''re''" "''im''" "FloatType 4 H5T_ORDER_LE" "FloatType 8 H5T_ORDER_LE"
      "FloatType 4 H5T_ORDER_LE"]
  by simp

text \<open>
  C4 as stated fails: a compound with three members is rejected with a message that
  carries the dataset name and the number 3, and the name of none of its members.
\<close>

theorem classify_compound_counterexample:
  "classify (''r'', ''i'') ''/c''
     (CompType 12 [(''r'', FloatType 4 H5T_ORDER_LE), (''i'', FloatType 4 H5T_ORDER_LE),
                   (''j'', FloatType 4 H5T_ORDER_LE)]) =
     Inl (InvalidArgument
       [Str ''unsupported compound members for '', Str ''/c'', Str '': '', Num 3]) \<and>
   Str ''r'' \<notin> set (error_args (InvalidArgument
       [Str ''unsupported compound members for '', Str ''/c'', Str '': '', Num 3])) \<and>
   Str ''i'' \<notin> set (error_args (InvalidArgument
       [Str ''unsupported compound members for '', Str ''/c'', Str '': '', Num 3])) \<and>
   Str ''j'' \<notin> set (error_args (InvalidArgument
       [Str ''unsupported compound members for '', Str ''/c'', Str '': '', Num 3]))"
  by (simp add: classify_compound_def error_args_def)


section \<open>Properties of the region validation in \<^verbatim>\<open>Read\<close>\<close>

text \<open>Signed and unsigned readings of a 64-bit word.\<close>

lemma bit63_iff:
  fixes k :: int
  assumes "0 \<le> k" "k < 2 ^ 64"
  shows "bit k 63 \<longleftrightarrow> 2 ^ 63 \<le> k"
proof -
  have "k div 2 ^ 63 = (if 2 ^ 63 \<le> k then 1 else 0)"
    using assms by (auto simp: div_pos_pos_trivial intro!: int_div_pos_eq[where r="k - 2^63"])
  then show ?thesis by (simp add: bit_iff_odd)
qed

lemma sint_as_uint:
  fixes a :: "64 word"
  shows "sint a = (if uint a < 2 ^ 63 then uint a else uint a - 2 ^ 64)"
proof -
  have b: "0 \<le> uint a" "uint a < 2 ^ 64" using uint_lt2p[of a] by simp_all
  have "sint a = take_bit 64 (uint a) - 2 ^ 64 * of_bool (bit (uint a) 63)"
    by (simp add: sint_uint signed_take_bit_eq_take_bit_minus)
  also have "take_bit 64 (uint a) = uint a"
    using b by (simp add: take_bit_int_eq_self)
  finally show ?thesis using bit63_iff[OF b] by auto
qed

text \<open>The test of the code, on words, holds whenever the test on the integers that
  the words stand for holds.\<close>

lemma out_of_boundary_word:
  fixes a s d :: "64 word"
  assumes "uint d < sint a \<or> uint d < sint a + sint s"
  shows "d < a \<or> d < a + s"
proof -
  have ba: "0 \<le> uint a" "uint a < 2 ^ 64" using uint_lt2p[of a] by simp_all
  have bs: "0 \<le> uint s" "uint s < 2 ^ 64" using uint_lt2p[of s] by simp_all
  have bd: "0 \<le> uint d" "uint d < 2 ^ 64" using uint_lt2p[of d] by simp_all
  show ?thesis
    unfolding word_less_def uint_plus_if'
    using assms ba bs bd
    by (auto simp: sint_as_uint split: if_splits)
qed

text \<open>The loop stops at the first dimension that fails the test.\<close>

lemma region_loop_first:
  assumes "a \<le> i" "i < rank" "rank \<le> length start" "length dims = rank"
      "\<forall>k. a \<le> k \<and> k < rank \<longrightarrow> dims ! k = extent ! k"
      "\<forall>k. a \<le> k \<and> k < i \<longrightarrow> \<not> (extent ! k < start ! k \<or> extent ! k < start ! k + shape ! k)"
      "extent ! i < start ! i \<or> extent ! i < start ! i + shape ! i"
  shows "for_each [a..<rank] (region_step start shape) (dims, ds) =
           Error (out_of_boundary i (start ! i) (shape ! i) (extent ! i))"
  using assms
proof (induction "i - a" arbitrary: a dims ds)
  case 0
  then have ai: "a = i" by simp
  have "[a..<rank] = i # [Suc i..<rank]" using 0 ai by (simp add: upt_conv_Cons)
  moreover have "dims ! i = extent ! i" using 0 ai by simp
  ultimately show ?case using 0 ai
    by (auto simp: region_step_def vec_get_def)
next
  case (Suc n)
  then have lt: "a < i" "a < rank" by simp_all
  have l: "[a..<rank] = a # [Suc a..<rank]" using lt by (simp add: upt_conv_Cons)
  have da: "dims ! a = extent ! a" using Suc.prems lt by simp
  have ok: "\<not> (extent ! a < start ! a \<or> extent ! a < start ! a + shape ! a)"
    using Suc.prems lt by simp
  have st: "region_step start shape a (dims, ds) = Ok (dims[a := shape ! a], ds[a := start ! a])"
    using ok da lt Suc.prems by (simp add: region_step_def vec_get_def)
  have "for_each [Suc a..<rank] (region_step start shape)
          (dims[a := shape ! a], ds[a := start ! a]) =
          Error (out_of_boundary i (start ! i) (shape ! i) (extent ! i))"
    using Suc.prems Suc.hyps lt by (intro Suc.hyps(1)) auto
  then show ?case by (simp add: l st)
qed

text \<open>When no dimension fails, the count is the requested shape and the start is the
  requested start.\<close>

lemma region_loop_ok:
  assumes "a \<le> rank" "rank \<le> length start" "length dims = rank" "length ds = rank"
      "length shape = rank"
      "\<forall>k. a \<le> k \<and> k < rank \<longrightarrow> dims ! k = extent ! k"
      "\<forall>k. a \<le> k \<and> k < rank \<longrightarrow>
           \<not> (extent ! k < start ! k \<or> extent ! k < start ! k + shape ! k)"
  shows "for_each [a..<rank] (region_step start shape) (dims, ds) =
           Ok (take a dims @ drop a shape, take a ds @ drop a (take rank start))"
  using assms
proof (induction "rank - a" arbitrary: a dims ds)
  case 0
  then show ?case by simp
next
  case (Suc n)
  then have lt: "a < rank" by simp
  have l: "[a..<rank] = a # [Suc a..<rank]" using lt by (simp add: upt_conv_Cons)
  have da: "dims ! a = extent ! a" using Suc.prems lt by simp
  have ok: "\<not> (extent ! a < start ! a \<or> extent ! a < start ! a + shape ! a)"
    using Suc.prems lt by simp
  have st: "region_step start shape a (dims, ds) = Ok (dims[a := shape ! a], ds[a := start ! a])"
    using ok da lt Suc.prems by (simp add: region_step_def vec_get_def)
  have ih: "for_each [Suc a..<rank] (region_step start shape)
              (dims[a := shape ! a], ds[a := start ! a]) =
          Ok (take (Suc a) (dims[a := shape ! a]) @ drop (Suc a) shape,
              take (Suc a) (ds[a := start ! a]) @ drop (Suc a) (take rank start))"
    using Suc.prems Suc.hyps lt by (intro Suc.hyps(1)) auto
  have e1: "take (Suc a) (dims[a := shape ! a]) @ drop (Suc a) shape = take a dims @ drop a shape"
    using lt Suc.prems by (simp add: take_Suc_conv_app_nth Cons_nth_drop_Suc)
  have "take rank start ! a # drop (Suc a) (take rank start) = drop a (take rank start)"
    using lt Suc.prems by (intro Cons_nth_drop_Suc) simp
  then have e2: "take (Suc a) (ds[a := start ! a]) @ drop (Suc a) (take rank start) =
      take a ds @ drop a (take rank start)"
    using lt Suc.prems by (simp add: take_Suc_conv_app_nth)
  show ?case by (simp add: l st ih e1 e2)
qed

lemma check_region_ok:
  assumes "length extent = length shape" "length shape \<le> length start"
      "\<forall>k < length shape. \<not> (extent ! k < start ! k \<or> extent ! k < start ! k + shape ! k)"
  shows "check_region start shape extent = Ok (shape, take (length shape) start)"
  using region_loop_ok[of 0 "length shape" start extent "replicate (length shape) 0" shape extent]
    assms
  by (simp add: check_region_def)

lemma check_region_first:
  assumes "length extent = length shape" "length shape \<le> length start" "i < length shape"
      "\<forall>k < i. \<not> (extent ! k < start ! k \<or> extent ! k < start ! k + shape ! k)"
      "extent ! i < start ! i \<or> extent ! i < start ! i + shape ! i"
  shows "check_region start shape extent =
           Error (out_of_boundary i (start ! i) (shape ! i) (extent ! i))"
  using region_loop_first[of 0 i "length shape" start extent extent shape
      "replicate (length shape) 0"] assms
  by (simp add: check_region_def)

lemma check_region_some:
  assumes "length extent = length shape" "length shape \<le> length start" "i < length shape"
      "extent ! i < start ! i \<or> extent ! i < start ! i + shape ! i"
  shows "\<exists>j\<le>i. check_region start shape extent =
           Error (out_of_boundary j (start ! j) (shape ! j) (extent ! j))"
proof -
  let ?bad = "\<lambda>k. extent ! k < start ! k \<or> extent ! k < start ! k + shape ! k"
  define j where "j = (LEAST k. ?bad k)"
  have bj: "?bad j" unfolding j_def using assms(4) by (rule LeastI)
  have le: "j \<le> i" unfolding j_def using assms(4) by (rule Least_le)
  have "\<forall>k<j. \<not> ?bad k" unfolding j_def using not_less_Least by blast
  then have "check_region start shape extent =
      Error (out_of_boundary j (start ! j) (shape ! j) (extent ! j))"
    using check_region_first[of extent shape start j] assms le bj by simp
  with le show ?thesis by blast
qed

text \<open>
  The rank and the bounds of a request. Let the dataset be indexed, the output be
  allocated and the dataset be opened with its type and its extent, and let \<open>start\<close> have
  an entry for each requested dimension. If the requested shape has rank above 0 and
  the rank of the dataset differs, \<open>Read\<close> fails with the rank-mismatch error. If the
  ranks agree and some dimension \<open>i\<close> has \<open>start[i] > dim[i]\<close> or
  \<open>start[i] + shape[i] > dim[i]\<close> (as integers), \<open>Read\<close> fails with the out-of-boundary error
  of the first such dimension.
\<close>

lemma Read_region_errors:
  assumes "columns_index r component = Some ci"
      and "allocate_func shape = None"
      and "file_image r = Some (Some fl)"
      and "openDataSet fl component = Inr ds"
      and "getDataType ds = Inr ty"
      and "getSpace ds = Inr extent"
      and "length shape \<le> length start"
  shows "(length shape \<noteq> 0 \<and> length extent \<noteq> length shape \<longrightarrow>
            Read r component start shape allocate_func =
              Error (rank_mismatch (length extent) (length shape))) \<and>
         (length shape \<noteq> 0 \<and> length extent = length shape \<and> i < length shape \<and>
            (uint (extent ! i) < sint (start ! i) \<or>
             uint (extent ! i) < sint (start ! i) + sint (shape ! i)) \<longrightarrow>
            (\<exists>j\<le>i. Read r component start shape allocate_func =
               Error (out_of_boundary j (start ! j) (shape ! j) (extent ! j))))"
proof (intro conjI impI)
  assume "length shape \<noteq> 0 \<and> length extent \<noteq> length shape"
  then show "Read r component start shape allocate_func =
      Error (rank_mismatch (length extent) (length shape))"
    using assms by (simp add: Read_def Read_try_def check_region_def Read_catch_def)
next
  assume h: "length shape \<noteq> 0 \<and> length extent = length shape \<and> i < length shape \<and>
            (uint (extent ! i) < sint (start ! i) \<or>
             uint (extent ! i) < sint (start ! i) + sint (shape ! i))"
  then have "extent ! i < start ! i \<or> extent ! i < start ! i + shape ! i"
    by (intro out_of_boundary_word) simp
  with h assms(7) obtain j where j: "j \<le> i"
      "check_region start shape extent =
         Error (out_of_boundary j (start ! j) (shape ! j) (extent ! j))"
    using check_region_some[of extent shape start i] by auto
  have "Read r component start shape allocate_func =
      Error (out_of_boundary j (start ! j) (shape ! j) (extent ! j))"
    using assms h j(2) by (simp add: Read_def Read_try_def Read_catch_def)
  with j(1) show "\<exists>j\<le>i. Read r component start shape allocate_func =
               Error (out_of_boundary j (start ! j) (shape ! j) (extent ! j))" by blast
qed

lemma Read_region_errors_run:
  "Read (catalog_of ''f.h5'' (single_file ''x'' (plain_dataset (IntType 1 H5T_SGN_2) [10] [1, 2]))
           ''/x'' DT_INT8 [10])
     ''/x'' [7] [5] (\<lambda>_. None) = Error (out_of_boundary 0 7 5 10) \<and>
   Read (catalog_of ''f.h5'' (single_file ''x'' (plain_dataset (IntType 1 H5T_SGN_2) [10] [1, 2]))
           ''/x'' DT_INT8 [10])
     ''/x'' [0, 0] [1, 1] (\<lambda>_. None) = Error (rank_mismatch 1 2)"
  using
    Read_region_errors [where r = "catalog_of ''f.h5''
          (single_file ''x'' (plain_dataset (IntType 1 H5T_SGN_2) [10] [1, 2])) ''/x'' DT_INT8 [10]"
      and component = "''/x''" and ci = 0 and allocate_func = "\<lambda>_. None" and shape = "[5]"
      and fl = "single_file ''x'' (plain_dataset (IntType 1 H5T_SGN_2) [10] [1, 2])"
      and ds = "plain_dataset (IntType 1 H5T_SGN_2) [10] [1, 2]" and ty = "IntType 1 H5T_SGN_2"
      and extent = "[10]" and start = "[7]" and i = 0]
    Read_region_errors [where r = "catalog_of ''f.h5''
          (single_file ''x'' (plain_dataset (IntType 1 H5T_SGN_2) [10] [1, 2])) ''/x'' DT_INT8 [10]"
      and component = "''/x''" and ci = 0 and allocate_func = "\<lambda>_. None" and shape = "[1, 1]"
      and fl = "single_file ''x'' (plain_dataset (IntType 1 H5T_SGN_2) [10] [1, 2])"
      and ds = "plain_dataset (IntType 1 H5T_SGN_2) [10] [1, 2]" and ty = "IntType 1 H5T_SGN_2"
      and extent = "[10]" and start = "[0, 0]" and i = 0]
  by (simp add: catalog_of_def single_file_def plain_dataset_def rank_mismatch_def)

text \<open>
  A request of rank 0 skips the validation: no hyperslab is selected, and the whole
  dataset is read into the output, which was allocated with the requested shape and
  so holds one element. For the numeric and complex types the call returns what was
  read when that fits one element, and writes behind the tensor when it does not.
\<close>

lemma Read_rank0:
  assumes "columns_index r component = Some ci"
      and "allocate_func [] = None"
      and "file_image r = Some (Some fl)"
      and "openDataSet fl component = Inr ds"
      and "getDataType ds = Inr ty"
      and "getSpace ds = Inr extent"
      and "ci < length (dtypes r)"
      and "dtypes r ! ci \<noteq> DT_STRING" "dtypes r ! ci \<noteq> DT_BOOL"
      and "read_bytes ds None = Inr b"
  shows "Read r component start [] allocate_func =
           (if length b \<le> DataTypeSize (dtypes r ! ci) then Ok ([], Raw b) else Undefined)"
  using assms
  by (cases "dtypes r ! ci")
     (simp_all add: Read_def Read_try_def Read_catch_def Read_decode_def read_raw_def
        vec_get_def NumElements_def)

text \<open>
  C2 fails on the code for a requested shape of rank 0. On a dataset of ten one-byte
  integers the output has one element (one byte) and the unselected read delivers
  ten bytes: the read writes behind the tensor, in \<open>Read\<close> and so in the kernel with an
  empty shape input. The same dataset is read in full by the request of shape \<open>[10]\<close>,
  which the validation admits; and a request of rank 0 does read a scalar dataset
  (one element) in full.
\<close>

theorem Read_rank0_overrun:
  "NumElements [] = 1 \<and>
   Read (catalog_of ''f.h5''
           (single_file ''x''
              (plain_dataset (IntType 1 H5T_SGN_2) [10] [0, 1, 2, 3, 4, 5, 6, 7, 8, 9]))
           ''/x'' DT_INT8 [10])
     ''/x'' [] [] (\<lambda>_. None) = Undefined \<and>
   ResourceKernel
     (catalog_of ''f.h5''
        (single_file ''x''
           (plain_dataset (IntType 1 H5T_SGN_2) [10] [0, 1, 2, 3, 4, 5, 6, 7, 8, 9]))
        ''/x'' DT_INT8 [10])
     ''/x'' \<lparr>tdims = [0], tflat = []\<rparr> \<lparr>tdims = [0], tflat = []\<rparr>
     \<lparr>tdims = [0], tflat = []\<rparr> (\<lambda>_. None) = Undefined \<and>
   Read (catalog_of ''f.h5''
           (single_file ''x''
              (plain_dataset (IntType 1 H5T_SGN_2) [10] [0, 1, 2, 3, 4, 5, 6, 7, 8, 9]))
           ''/x'' DT_INT8 [10])
     ''/x'' [0] [10] (\<lambda>_. None) = Ok ([10], Raw [0, 1, 2, 3, 4, 5, 6, 7, 8, 9]) \<and>
   Read (catalog_of ''f.h5'' (single_file ''x'' (plain_dataset (IntType 1 H5T_SGN_2) [] [7]))
           ''/x'' DT_INT8 [])
     ''/x'' [] [] (\<lambda>_. None) = Ok ([], Raw [7])"
  by (simp add: Read_def Read_try_def Read_catch_def Read_decode_def read_raw_def
      check_region_def region_step_def vec_get_def vec_set_def catalog_of_def single_file_def
      plain_dataset_def NumElements_def ResourceKernel_def TensorShape_ctor_def
      TensorShape_ok_def ReadOp_start_def ReadOp_stop_def ReadOp_clamp_def ReadOp_shape_def
      num_elements_def)


section \<open>Properties of the read kernel\<close>

text \<open>A rule for counted loops: an invariant that holds at the start and is kept by
  every round, which returns, holds at the end, and the loop returns.\<close>

lemma for_each_rule:
  assumes "a \<le> b" "I a s"
      and "\<And>i s. a \<le> i \<Longrightarrow> i < b \<Longrightarrow> I i s \<Longrightarrow> \<exists>s'. body i s = Ok s' \<and> I (Suc i) s'"
  shows "\<exists>s'. for_each [a..<b] body s = Ok s' \<and> I b s'"
  using assms
proof (induction "b - a" arbitrary: a s)
  case 0
  then show ?case by simp
next
  case (Suc n)
  then have lt: "a < b" by simp
  then obtain s1 where s1: "body a s = Ok s1" "I (Suc a) s1"
    using Suc.prems(3)[of a s] Suc.prems(2) by auto
  have "\<exists>s'. for_each [Suc a..<b] body s1 = Ok s' \<and> I b s'"
    using Suc.hyps(2) lt s1(2) Suc.prems(3) by (intro Suc.hyps(1)) auto
  then show ?case using lt s1(1) by (simp add: upt_conv_Cons)
qed

lemma clamp_step_Ok:
  assumes "i < length st" "i < length sp"
  shows "clamp_step shape i (st, sp) =
     Ok (st[i := clamp_start (st ! i) (clamp_stop (shape ! i) (sp ! i))],
         sp[i := clamp_stop (shape ! i) (sp ! i)])"
proof (cases "sp ! i <s 0 \<or> shape ! i <s sp ! i")
  case True
  then have c: "clamp_stop (shape ! i) (sp ! i) = shape ! i" by (simp add: clamp_stop_def)
  show ?thesis
  proof (cases "shape ! i <s st ! i")
    case True
    then have "clamp_start (st ! i) (shape ! i) = shape ! i" by (simp add: clamp_start_def)
    with True c \<open>sp ! i <s 0 \<or> shape ! i <s sp ! i\<close> assms show ?thesis
      by (simp add: clamp_step_def vec_get_def vec_set_def)
  next
    case False
    then have "clamp_start (st ! i) (shape ! i) = st ! i" by (simp add: clamp_start_def)
    with False c \<open>sp ! i <s 0 \<or> shape ! i <s sp ! i\<close> assms show ?thesis
      by (simp add: clamp_step_def vec_get_def vec_set_def)
  qed
next
  case False
  then have c: "clamp_stop (shape ! i) (sp ! i) = sp ! i" by (simp add: clamp_stop_def)
  show ?thesis
  proof (cases "sp ! i <s st ! i")
    case True
    then have "clamp_start (st ! i) (sp ! i) = sp ! i" by (simp add: clamp_start_def)
    with True c \<open>\<not> (sp ! i <s 0 \<or> shape ! i <s sp ! i)\<close> assms show ?thesis
      by (simp add: clamp_step_def vec_get_def vec_set_def)
  next
    case False
    then have "clamp_start (st ! i) (sp ! i) = st ! i" by (simp add: clamp_start_def)
    with False c \<open>\<not> (sp ! i <s 0 \<or> shape ! i <s sp ! i)\<close> assms show ?thesis
      by (simp add: clamp_step_def vec_get_def vec_set_def)
  qed
qed

lemma ReadOp_clamp_Ok:
  assumes "length shape \<le> length start" "length shape \<le> length stop"
  shows "\<exists>start' stop'. ReadOp_clamp shape (start, stop) = Ok (start', stop') \<and>
           length start' = length start \<and> length stop' = length stop \<and>
           (\<forall>k < length shape.
              stop' ! k = clamp_stop (shape ! k) (stop ! k) \<and>
              start' ! k = clamp_start (start ! k) (stop' ! k))"
proof -
  define I where "I = (\<lambda>i (st, sp).
      length st = length start \<and> length sp = length stop \<and>
      (\<forall>k < i. sp ! k = clamp_stop (shape ! k) (stop ! k) \<and>
                st ! k = clamp_start (start ! k) (sp ! k)) \<and>
      (\<forall>k \<ge> i. sp ! k = stop ! k \<and> st ! k = start ! k))"
  have "\<exists>s'. for_each [0..<length shape] (clamp_step shape) (start, stop) = Ok s' \<and>
          I (length shape) s'"
  proof (rule for_each_rule)
    show "I 0 (start, stop)" by (simp add: I_def)
  next
    fix i s
    assume i: "0 \<le> i" "i < length shape" and inv: "I i s"
    obtain st sp where s: "s = (st, sp)" by (cases s)
    have len: "i < length st" "i < length sp" using inv i assms by (simp_all add: I_def s)
    have "I (Suc i) (st[i := clamp_start (st ! i) (clamp_stop (shape ! i) (sp ! i))],
         sp[i := clamp_stop (shape ! i) (sp ! i)])"
      using inv len unfolding I_def s
      by (simp add: nth_list_update less_Suc_eq)
    then show "\<exists>s'. clamp_step shape i s = Ok s' \<and> I (Suc i) s'"
      using clamp_step_Ok[OF len, of shape] s by simp
  qed simp
  then show ?thesis
    by (auto simp: ReadOp_clamp_def I_def)
qed

lemma for_each_cong:
  "(\<And>i s. i \<in> set js \<Longrightarrow> f i s = g i s) \<Longrightarrow> for_each js f s = for_each js g s"
proof (induction js arbitrary: s)
  case Nil
  show ?case by simp
next
  case (Cons j js)
  have "for_each js f = for_each js g"
    using Cons by (intro ext) simp
  then show ?case using Cons.prems[of j s] by simp
qed

lemma set_dim_loop:
  assumes "length new = n" "length old = n" "a \<le> n"
  shows "for_each [a..<n] (\<lambda>i sh. set_dim sh i (new ! i)) (take a new @ drop a old) =
           (if list_all (\<lambda>k. 0 \<le>s new ! k \<and>
                  shape_elements 1 (take (Suc k) new @ drop (Suc k) old) \<noteq> None) [a..<n]
            then Ok new else Aborted)"
  using assms
proof (induction "n - a" arbitrary: a)
  case 0
  then show ?case by simp
next
  case (Suc m)
  then have lt: "a < n" by simp
  have l: "[a..<n] = a # [Suc a..<n]" using lt by (simp add: upt_conv_Cons)
  have "drop a old = old ! a # drop (Suc a) old"
    using lt Suc.prems by (simp add: Cons_nth_drop_Suc)
  then have upd: "(take a new @ drop a old)[a := new ! a] = take (Suc a) new @ drop (Suc a) old"
    using lt Suc.prems by (simp add: list_update_append take_Suc_conv_app_nth)
  have ih: "for_each [Suc a..<n] (\<lambda>i sh. set_dim sh i (new ! i))
             (take (Suc a) new @ drop (Suc a) old) =
           (if list_all (\<lambda>k. 0 \<le>s new ! k \<and>
                  shape_elements 1 (take (Suc k) new @ drop (Suc k) old) \<noteq> None) [Suc a..<n]
            then Ok new else Aborted)"
    using Suc.hyps(2) lt Suc.prems by (intro Suc.hyps(1)) auto
  have st: "set_dim (take a new @ drop a old) a (new ! a) =
      (if 0 \<le>s new ! a \<and> shape_elements 1 (take (Suc a) new @ drop (Suc a) old) \<noteq> None
       then Ok (take (Suc a) new @ drop (Suc a) old) else Aborted)"
    using lt Suc.prems by (simp add: set_dim_def upd)
  show ?case
    by (simp add: l st ih)
qed

lemma ReadOp_shape_eq:
  assumes "length shape \<le> length start" "length shape \<le> length stop"
  shows "ReadOp_shape shape start stop =
           (if set_dim_checks shape (map (\<lambda>i. stop ! i - start ! i) [0..<length shape])
            then Ok (map (\<lambda>i. stop ! i - start ! i) [0..<length shape]) else Aborted)"
proof -
  let ?n = "length shape"
  let ?new = "map (\<lambda>i. stop ! i - start ! i) [0..<?n]"
  have "ReadOp_shape shape start stop =
      for_each [0..<?n] (\<lambda>i sh. set_dim sh i (?new ! i)) shape"
    unfolding ReadOp_shape_def using assms
    by (intro for_each_cong) (simp add: vec_get_def)
  also have "\<dots> = for_each [0..<?n] (\<lambda>i sh. set_dim sh i (?new ! i)) (take 0 ?new @ drop 0 shape)"
    by simp
  also have "\<dots> = (if list_all (\<lambda>k. 0 \<le>s ?new ! k \<and>
                  shape_elements 1 (take (Suc k) ?new @ drop (Suc k) shape) \<noteq> None) [0..<?n]
            then Ok ?new else Aborted)"
    by (rule set_dim_loop) simp_all
  finally show ?thesis by (simp add: set_dim_checks_def)
qed

text \<open>A shape whose sizes are between 0 and the sizes of a shape that passes the checks
  passes them.\<close>

lemma shape_elements_mono:
  assumes "list_all2 (\<lambda>a b. 0 \<le> sint a \<and> sint a \<le> sint b) xs ys" "0 \<le> m" "m \<le> n"
      "shape_elements n ys \<noteq> None"
  shows "shape_elements m xs \<noteq> None"
  using assms
proof (induction xs ys arbitrary: m n rule: list_all2_induct)
  case Nil
  show ?case by simp
next
  case (Cons a xs b ys)
  have nb: "n * sint b < 2 ^ 63" "shape_elements (n * sint b) ys \<noteq> None"
    using Cons.prems(3) by (simp_all split: if_splits)
  have le: "m * sint a \<le> n * sint b"
    using Cons.hyps(1) Cons.prems(1,2) by (intro mult_mono) auto
  have "0 \<le> m * sint a" using Cons.hyps(1) Cons.prems(1) by simp
  then have "shape_elements (m * sint a) xs \<noteq> None"
    using le nb(2) by (rule Cons.IH)
  then show ?case using le nb(1) by simp
qed

lemma set_dim_checks_below:
  assumes "TensorShape_ok old" "length new = length old"
      "\<forall>k < length old. 0 \<le> sint (new ! k) \<and> sint (new ! k) \<le> sint (old ! k)"
  shows "set_dim_checks old new"
proof -
  have pos: "0 \<le> sint (old ! j)" if "j < length old" for j
    using assms(1) that by (simp add: TensorShape_ok_def list_all_length word_sle_eq)
  have "shape_elements 1 (take (Suc k) new @ drop (Suc k) old) \<noteq> None" if "k < length old" for k
  proof (rule shape_elements_mono[where n = 1 and ys = old])
    show "list_all2 (\<lambda>a b. 0 \<le> sint a \<and> sint a \<le> sint b) (take (Suc k) new @ drop (Suc k) old) old"
      using assms(2,3) that pos
      by (auto simp: list_all2_conv_all_nth nth_append min_def)
    show "shape_elements 1 old \<noteq> None" using assms(1) by (simp add: TensorShape_ok_def)
  qed simp_all
  then show ?thesis
    using assms(3) by (simp add: set_dim_checks_def list_all_iff word_sle_eq)
qed

text \<open>The clamped values, when the size of the dimension and the given start are not
  negative: the difference does not wrap and lies between 0 and the size.\<close>

lemma clamp_diff:
  fixes d a s :: int64
  assumes "0 \<le>s d" "0 \<le>s a"
  shows "0 \<le> sint (clamp_stop d s - clamp_start a (clamp_stop d s)) \<and>
         sint (clamp_stop d s - clamp_start a (clamp_stop d s)) \<le> sint d"
proof -
  let ?sp = "clamp_stop d s" and ?st = "clamp_start a (clamp_stop d s)"
  have d: "0 \<le> sint d" and a: "0 \<le> sint a" using assms by (simp_all add: word_sle_eq)
  have sp: "0 \<le> sint ?sp" "sint ?sp \<le> sint d"
    using d by (auto simp: clamp_stop_def word_sless_alt)
  have st: "0 \<le> sint ?st" "sint ?st \<le> sint ?sp"
    using a sp(1) by (auto simp: clamp_start_def word_sless_alt)
  have b: "sint ?sp < 2 ^ 63" using sint_lt[of ?sp] by simp
  have "sint (?sp - ?st) = signed_take_bit 63 (sint ?sp - sint ?st)"
    by (simp add: sint_word_diff)
  also have "\<dots> = sint ?sp - sint ?st"
    using sp st b by (intro signed_take_bit_int_eq_self) auto
  finally show ?thesis using sp st by simp
qed

lemma vec_fill_Ok:
  assumes "a \<le> b" "b \<le> length v"
  shows "\<exists>v'. for_each [a..<b] (\<lambda>i v. vec_set v i (x i)) v = Ok v' \<and> length v' = length v \<and>
           (\<forall>k. v' ! k = (if a \<le> k \<and> k < b then x k else v ! k))"
proof -
  define I where "I = (\<lambda>i w. length w = length v \<and>
      (\<forall>k. w ! k = (if a \<le> k \<and> k < i then x k else v ! k)))"
  have "\<exists>s'. for_each [a..<b] (\<lambda>i v. vec_set v i (x i)) v = Ok s' \<and> I b s'"
  proof (rule for_each_rule)
    show "I a v" by (auto simp: I_def)
  next
    fix i s
    assume "a \<le> i" "i < b" "I i s"
    then show "\<exists>s'. vec_set s i (x i) = Ok s' \<and> I (Suc i) s'"
      using assms
      by (auto simp: I_def vec_set_def nth_list_update less_Suc_eq)
  qed (rule assms)
  then show ?thesis by (auto simp: I_def)
qed

lemma ReadOp_start_Ok:
  assumes "num_elements start_tensor \<le> length shape"
  shows "\<exists>start. ReadOp_start shape start_tensor = Ok start \<and> length start = length shape \<and>
           (\<forall>k < length shape. start ! k =
              (if k < num_elements start_tensor then tflat start_tensor ! k else 0))"
proof -
  let ?m = "num_elements start_tensor"
  obtain v1 where v1: "for_each [0..<?m] (\<lambda>i start. vec_set start i (tflat start_tensor ! i))
        (replicate (length shape) 0) = Ok v1" "length v1 = length shape"
      "\<forall>k. v1 ! k = (if 0 \<le> k \<and> k < ?m then tflat start_tensor ! k
                       else replicate (length shape) (0::int64) ! k)"
    using vec_fill_Ok[of 0 ?m "replicate (length shape) (0::int64)" "\<lambda>i. tflat start_tensor ! i"] assms
    by auto
  obtain v2 where v2: "for_each [?m..<length shape] (\<lambda>i start. vec_set start i 0) v1 = Ok v2"
      "length v2 = length v1" "\<forall>k. v2 ! k = (if ?m \<le> k \<and> k < length shape then 0 else v1 ! k)"
    using vec_fill_Ok[of ?m "length shape" v1 "\<lambda>i. 0"] assms v1(2) by auto
  show ?thesis
    using v1 v2 by (auto simp: ReadOp_start_def)
qed

lemma ReadOp_stop_Ok:
  assumes "num_elements stop_tensor \<le> length (tdims stop_tensor)"
      "length shape \<le> length (tdims stop_tensor)"
  shows "\<exists>stop. ReadOp_stop shape stop_tensor = Ok stop \<and> length stop = length (tdims stop_tensor) \<and>
           (\<forall>k < length shape. stop ! k =
              (if k < num_elements stop_tensor then tflat stop_tensor ! k else shape ! k))"
proof -
  let ?m = "num_elements stop_tensor"
  let ?r = "length (tdims stop_tensor)"
  obtain v1 where v1: "for_each [0..<?m] (\<lambda>i stop. vec_set stop i (tflat stop_tensor ! i))
        (replicate ?r 0) = Ok v1" "length v1 = ?r"
      "\<forall>k. v1 ! k = (if 0 \<le> k \<and> k < ?m then tflat stop_tensor ! k
                       else replicate ?r (0::int64) ! k)"
    using vec_fill_Ok[of 0 ?m "replicate ?r (0::int64)" "\<lambda>i. tflat stop_tensor ! i"] assms
    by auto
  show ?thesis
  proof (cases "?m \<le> length shape")
    case True
    obtain v2 where v2: "for_each [?m..<length shape] (\<lambda>i stop. vec_set stop i (shape ! i)) v1 = Ok v2"
      "length v2 = length v1" "\<forall>k. v2 ! k = (if ?m \<le> k \<and> k < length shape then shape ! k else v1 ! k)"
      using vec_fill_Ok[of ?m "length shape" v1 "\<lambda>i. shape ! i"] assms v1(2) True by auto
    show ?thesis
      using v1 v2 by (auto simp: ReadOp_stop_def)
  next
    case False
    then show ?thesis
      using v1 by (auto simp: ReadOp_stop_def)
  qed
qed


lemma and_then_Ok: "and_then x k = Ok y \<longleftrightarrow> (\<exists>z. x = Ok z \<and> k z = Ok y)"
  by (cases x) auto

lemma Read_Ok_shape:
  "Read r component start shape allocate_func = Ok (sh, data) \<Longrightarrow> sh = shape"
  by (auto simp: Read_def and_then_Ok split: option.splits)


lemma ResourceKernel_bad_shape:
  "\<not> TensorShape_ok (tflat shape_tensor) \<Longrightarrow>
     ResourceKernel resource component shape_tensor start_tensor stop_tensor allocate_output =
       Aborted"
  by (simp add: ResourceKernel_def TensorShape_ctor_def)

text \<open>
  C1 as the code has it. Let the shape input be a valid shape, and let the \<open>start\<close> and
  \<open>stop\<close> vectors be built without an index outside them: the start tensor has at most
  as many elements as the shape has dimensions, and the stop vector, which has as many
  entries as the stop tensor has dimensions, holds the elements of the stop tensor and
  an entry for each dimension of the shape. Then in each dimension \<open>i\<close>: \<open>stop[i]\<close> is the
  given stop, or the size of the shape input in that dimension if the given stop is
  negative or above it; \<open>start[i]\<close> is the given start, or \<open>stop[i]\<close> if the given start is
  above it; the new size is \<open>stop[i] - start[i]\<close>. If the new sizes pass the checks of
  \<^verbatim>\<open>set_dim\<close>, the kernel calls \<open>Read\<close> with that start and that shape, with which the
  output is allocated; if not, the process ends. They pass when no given start is
  negative. The extent of the dataset is not consulted. In particular \<open>start = [8]\<close>,
  \<open>stop = [3]\<close> on the shape input \<open>[10]\<close> gives the request \<open>start = [3]\<close>, \<open>shape = [0]\<close>,
  which the validation of \<open>Read\<close> accepts on a dataset of extent \<open>[10]\<close>.
\<close>

theorem ResourceKernel_normalizes:
  assumes "TensorShape_ok (tflat shape_tensor)"
      and "num_elements start_tensor \<le> length (tflat shape_tensor)"
      and "num_elements stop_tensor \<le> length (tdims stop_tensor)"
      and "length (tflat shape_tensor) \<le> length (tdims stop_tensor)"
  shows "(\<exists>start stop shape.
      length start = length (tflat shape_tensor) \<and>
      length shape = length (tflat shape_tensor) \<and>
      (\<forall>i < length (tflat shape_tensor).
         stop ! i =
           (let s = (if i < num_elements stop_tensor then tflat stop_tensor ! i
                     else tflat shape_tensor ! i)
            in if s <s 0 \<or> tflat shape_tensor ! i <s s then tflat shape_tensor ! i else s) \<and>
         start ! i =
           (let a = (if i < num_elements start_tensor then tflat start_tensor ! i else 0)
            in if stop ! i <s a then stop ! i else a) \<and>
         shape ! i = stop ! i - start ! i) \<and>
      ResourceKernel resource component shape_tensor start_tensor stop_tensor allocate_output =
        (if set_dim_checks (tflat shape_tensor) shape
         then Read resource component start shape allocate_output else Aborted) \<and>
      (list_all (\<lambda>a. 0 \<le>s a) (tflat start_tensor) \<longrightarrow>
         set_dim_checks (tflat shape_tensor) shape) \<and>
      (\<forall>sh data. Read resource component start shape allocate_output = Ok (sh, data) \<longrightarrow>
         sh = shape)) \<and>
    ResourceKernel resource component \<lparr>tdims = [1], tflat = [10]\<rparr> \<lparr>tdims = [1], tflat = [8]\<rparr>
        \<lparr>tdims = [1], tflat = [3]\<rparr> allocate_output =
      Read resource component [3] [0] allocate_output \<and>
    check_region [3] [0] [10] = Ok ([0], [3])"
proof (intro conjI)
  let ?shape = "tflat shape_tensor"
  let ?n = "length ?shape"
  obtain start0 where start0: "ReadOp_start ?shape start_tensor = Ok start0"
      "length start0 = ?n"
      "\<forall>k < ?n. start0 ! k =
              (if k < num_elements start_tensor then tflat start_tensor ! k else 0)"
    using ReadOp_start_Ok[OF assms(2)] by blast
  obtain stop0 where stop0: "ReadOp_stop ?shape stop_tensor = Ok stop0"
      "length stop0 = length (tdims stop_tensor)"
      "\<forall>k < ?n. stop0 ! k =
              (if k < num_elements stop_tensor then tflat stop_tensor ! k else ?shape ! k)"
    using ReadOp_stop_Ok[OF assms(3,4)] by blast
  obtain start stop where cl: "ReadOp_clamp ?shape (start0, stop0) = Ok (start, stop)"
      "length start = length start0" "length stop = length stop0"
      "\<forall>k < ?n.
              stop ! k = clamp_stop (?shape ! k) (stop0 ! k) \<and>
              start ! k = clamp_start (start0 ! k) (stop ! k)"
    using ReadOp_clamp_Ok[of ?shape start0 stop0] start0(2) stop0(2) assms(4) by auto
  define shape where "shape = map (\<lambda>i. stop ! i - start ! i) [0..<?n]"
  have sh: "ReadOp_shape ?shape start stop =
      (if set_dim_checks ?shape shape then Ok shape else Aborted)"
    unfolding shape_def
    using cl(2,3) start0(2) stop0(2) assms(4) by (intro ReadOp_shape_eq) simp_all
  have shl: "length shape = ?n" "\<forall>k < ?n. shape ! k = stop ! k - start ! k"
    by (simp_all add: shape_def)
  have k: "ResourceKernel resource component shape_tensor start_tensor stop_tensor allocate_output =
        (if set_dim_checks ?shape shape
         then Read resource component start shape allocate_output else Aborted)"
    using assms(1)
    by (simp add: ResourceKernel_def TensorShape_ctor_def start0(1) stop0(1) cl(1) sh)
  have el: "\<forall>i < ?n.
         stop ! i =
           (let s = (if i < num_elements stop_tensor then tflat stop_tensor ! i else ?shape ! i)
            in if s <s 0 \<or> ?shape ! i <s s then ?shape ! i else s) \<and>
         start ! i =
           (let a = (if i < num_elements start_tensor then tflat start_tensor ! i else 0)
            in if stop ! i <s a then stop ! i else a) \<and>
         shape ! i = stop ! i - start ! i"
    using start0(3) stop0(3) cl(4) shl(2)
    by (simp add: clamp_stop_def clamp_start_def Let_def)
  have pos: "set_dim_checks ?shape shape" if nn: "list_all (\<lambda>a. 0 \<le>s a) (tflat start_tensor)"
  proof (rule set_dim_checks_below[OF assms(1) shl(1)], intro allI impI)
    fix j assume j: "j < ?n"
    have d: "0 \<le>s ?shape ! j"
      using assms(1) j by (simp add: TensorShape_ok_def list_all_length)
    have a: "0 \<le>s start0 ! j"
      using start0(3) j nn by (simp add: list_all_length num_elements_def)
    have "shape ! j = clamp_stop (?shape ! j) (stop0 ! j) -
        clamp_start (start0 ! j) (clamp_stop (?shape ! j) (stop0 ! j))"
      using shl(2) cl(4) j by simp
    then show "0 \<le> sint (shape ! j) \<and> sint (shape ! j) \<le> sint (?shape ! j)"
      using clamp_diff[OF d a, of "stop0 ! j"] by simp
  qed
  show "\<exists>start stop shape.
      length start = length (tflat shape_tensor) \<and>
      length shape = length (tflat shape_tensor) \<and>
      (\<forall>i < length (tflat shape_tensor).
         stop ! i =
           (let s = (if i < num_elements stop_tensor then tflat stop_tensor ! i
                     else tflat shape_tensor ! i)
            in if s <s 0 \<or> tflat shape_tensor ! i <s s then tflat shape_tensor ! i else s) \<and>
         start ! i =
           (let a = (if i < num_elements start_tensor then tflat start_tensor ! i else 0)
            in if stop ! i <s a then stop ! i else a) \<and>
         shape ! i = stop ! i - start ! i) \<and>
      ResourceKernel resource component shape_tensor start_tensor stop_tensor allocate_output =
        (if set_dim_checks (tflat shape_tensor) shape
         then Read resource component start shape allocate_output else Aborted) \<and>
      (list_all (\<lambda>a. 0 \<le>s a) (tflat start_tensor) \<longrightarrow>
         set_dim_checks (tflat shape_tensor) shape) \<and>
      (\<forall>sh data. Read resource component start shape allocate_output = Ok (sh, data) \<longrightarrow>
         sh = shape)"
  proof (intro exI conjI)
    show "length start = ?n" using cl(2) start0(2) by simp
    show "length shape = ?n" by (rule shl(1))
    show "\<forall>i < ?n.
         stop ! i =
           (let s = (if i < num_elements stop_tensor then tflat stop_tensor ! i else ?shape ! i)
            in if s <s 0 \<or> ?shape ! i <s s then ?shape ! i else s) \<and>
         start ! i =
           (let a = (if i < num_elements start_tensor then tflat start_tensor ! i else 0)
            in if stop ! i <s a then stop ! i else a) \<and>
         shape ! i = stop ! i - start ! i" by (rule el)
    show "ResourceKernel resource component shape_tensor start_tensor stop_tensor allocate_output =
        (if set_dim_checks ?shape shape
         then Read resource component start shape allocate_output else Aborted)" by (rule k)
    show "list_all (\<lambda>a. 0 \<le>s a) (tflat start_tensor) \<longrightarrow> set_dim_checks ?shape shape"
      using pos by blast
    show "\<forall>sh data. Read resource component start shape allocate_output = Ok (sh, data) \<longrightarrow>
         sh = shape" using Read_Ok_shape by blast
  qed
next
  show "ResourceKernel resource component \<lparr>tdims = [1], tflat = [10]\<rparr> \<lparr>tdims = [1], tflat = [8]\<rparr>
        \<lparr>tdims = [1], tflat = [3]\<rparr> allocate_output =
      Read resource component [3] [0] allocate_output"
    by (simp add: ResourceKernel_def TensorShape_ctor_def TensorShape_ok_def ReadOp_start_def
        ReadOp_stop_def ReadOp_clamp_def ReadOp_shape_def set_dim_def clamp_step_def
        num_elements_def vec_get_def vec_set_def word_sless_alt word_sle_eq)
next
  show "check_region [3] [0] [10] = Ok ([0], [3])"
    by (simp add: check_region_def region_step_def vec_get_def)
qed

theorem ResourceKernel_normalizes_witness:
  "ResourceKernel
     (catalog_of ''f.h5''
        (single_file ''x'' (plain_dataset (IntType 1 H5T_SGN_NONE) [10] [0, 1, 2, 3, 4, 5, 6, 7, 8, 9]))
        ''/x'' DT_UINT8 [10])
     ''/x'' \<lparr>tdims = [1], tflat = [10]\<rparr> \<lparr>tdims = [1], tflat = [8]\<rparr>
     \<lparr>tdims = [1], tflat = [3]\<rparr> (\<lambda>_. None) = Ok ([0], Raw []) \<and>
   ResourceKernel
     (catalog_of ''f.h5''
        (single_file ''x'' (plain_dataset (IntType 1 H5T_SGN_NONE) [10] [0, 1, 2, 3, 4, 5, 6, 7, 8, 9]))
        ''/x'' DT_UINT8 [10])
     ''/x'' \<lparr>tdims = [1], tflat = [10]\<rparr> \<lparr>tdims = [1], tflat = [3]\<rparr>
     \<lparr>tdims = [1], tflat = [12]\<rparr> (\<lambda>_. None) = Ok ([7], Raw [3, 4, 5, 6, 7, 8, 9]) \<and>
   ResourceKernel
     (catalog_of ''f.h5''
        (single_file ''x'' (plain_dataset (IntType 1 H5T_SGN_NONE) [10] [0, 1, 2, 3, 4, 5, 6, 7, 8, 9]))
        ''/x'' DT_UINT8 [10])
     ''/x'' \<lparr>tdims = [2], tflat = [4, 6]\<rparr> \<lparr>tdims = [2], tflat = [1, 2]\<rparr>
     \<lparr>tdims = [1, 2], tflat = [9, 5]\<rparr> (\<lambda>_. None) =
     Read
       (catalog_of ''f.h5''
          (single_file ''x'' (plain_dataset (IntType 1 H5T_SGN_NONE) [10] [0, 1, 2, 3, 4, 5, 6, 7, 8, 9]))
          ''/x'' DT_UINT8 [10])
       ''/x'' [1, 2] [3, 3] (\<lambda>_. None) \<and>
   ResourceKernel
     (catalog_of ''f.h5''
        (single_file ''x'' (plain_dataset (IntType 1 H5T_SGN_NONE) [10] [0, 1, 2, 3, 4, 5, 6, 7, 8, 9]))
        ''/x'' DT_UINT8 [10])
     ''/x'' \<lparr>tdims = [1], tflat = [10]\<rparr> \<lparr>tdims = [1], tflat = [- 9223372036854775808]\<rparr>
     \<lparr>tdims = [1], tflat = [5]\<rparr> (\<lambda>_. None) = Aborted"
proof -
  let ?R = "catalog_of ''f.h5''
        (single_file ''x'' (plain_dataset (IntType 1 H5T_SGN_NONE) [10] [0, 1, 2, 3, 4, 5, 6, 7, 8, 9]))
        ''/x'' DT_UINT8 [10]"
  note inst = ResourceKernel_normalizes [where start_tensor = "\<lparr>tdims = [1], tflat = [3]\<rparr>"
      and shape_tensor = "\<lparr>tdims = [1], tflat = [10]\<rparr>"
      and stop_tensor = "\<lparr>tdims = [1], tflat = [12]\<rparr>"
      and resource = ?R and component = "''/x''" and allocate_output = "\<lambda>_. None"]
  have hyp: "TensorShape_ok (tflat \<lparr>tdims = [1], tflat = [10]\<rparr>)"
    "num_elements \<lparr>tdims = [1], tflat = [3]\<rparr> \<le> length (tflat \<lparr>tdims = [1], tflat = [10]\<rparr>)"
    "num_elements \<lparr>tdims = [1], tflat = [12]\<rparr> \<le> length (tdims \<lparr>tdims = [1], tflat = [12]\<rparr>)"
    "length (tflat \<lparr>tdims = [1], tflat = [10]\<rparr>) \<le> length (tdims \<lparr>tdims = [1], tflat = [12]\<rparr>)"
    by (simp_all add: num_elements_def TensorShape_ok_def word_sle_eq)
  from inst[OF hyp] obtain start stop shape :: "int64 list" where
    len0: "length start = length (tflat \<lparr>tdims = [1], tflat = [10::int64]\<rparr>)"
       "length shape = length (tflat \<lparr>tdims = [1], tflat = [10::int64]\<rparr>)"
    and el0: "\<forall>i < length (tflat \<lparr>tdims = [1], tflat = [10::int64]\<rparr>).
         stop ! i =
           (let s = (if i < num_elements \<lparr>tdims = [1], tflat = [12]\<rparr>
                     then tflat \<lparr>tdims = [1], tflat = [12]\<rparr> ! i
                     else tflat \<lparr>tdims = [1], tflat = [10]\<rparr> ! i)
            in if s <s 0 \<or> tflat \<lparr>tdims = [1], tflat = [10]\<rparr> ! i <s s
               then tflat \<lparr>tdims = [1], tflat = [10]\<rparr> ! i else s) \<and>
         start ! i =
           (let a = (if i < num_elements \<lparr>tdims = [1], tflat = [3]\<rparr>
                     then tflat \<lparr>tdims = [1], tflat = [3]\<rparr> ! i else 0)
            in if stop ! i <s a then stop ! i else a) \<and>
         shape ! i = stop ! i - start ! i"
    and k: "ResourceKernel ?R ''/x'' \<lparr>tdims = [1], tflat = [10]\<rparr> \<lparr>tdims = [1], tflat = [3]\<rparr>
          \<lparr>tdims = [1], tflat = [12]\<rparr> (\<lambda>_. None) =
        (if set_dim_checks (tflat \<lparr>tdims = [1], tflat = [10::int64]\<rparr>) shape
         then Read ?R ''/x'' start shape (\<lambda>_. None) else Aborted)"
    and ok: "list_all (\<lambda>a. 0 \<le>s a) (tflat \<lparr>tdims = [1], tflat = [3::int64]\<rparr>) \<longrightarrow>
         set_dim_checks (tflat \<lparr>tdims = [1], tflat = [10::int64]\<rparr>) shape"
    by blast
  have len: "length start = 1" "length shape = 1" using len0 by simp_all
  have "stop ! 0 = 10" using el0 by (simp add: num_elements_def word_sless_alt)
  then have el: "start ! 0 = 3" "shape ! 0 = 7"
    using el0 by (simp_all add: num_elements_def word_sless_alt)
  have "start = [3]" using len el by (cases start) simp_all
  moreover have "shape = [7]" using len el by (cases shape) simp_all
  moreover have "set_dim_checks (tflat \<lparr>tdims = [1], tflat = [10::int64]\<rparr>) shape"
    using ok by (simp add: word_sle_eq)
  ultimately have a: "ResourceKernel ?R ''/x'' \<lparr>tdims = [1], tflat = [10]\<rparr> \<lparr>tdims = [1], tflat = [3]\<rparr>
          \<lparr>tdims = [1], tflat = [12]\<rparr> (\<lambda>_. None) = Ok ([7], Raw [3, 4, 5, 6, 7, 8, 9])"
    using k
    by (simp add: Read_def Read_try_def Read_catch_def Read_decode_def read_raw_def
        check_region_def region_step_def vec_get_def catalog_of_def single_file_def
        plain_dataset_def NumElements_def)
  have b: "ResourceKernel ?R ''/x'' \<lparr>tdims = [1], tflat = [10]\<rparr> \<lparr>tdims = [1], tflat = [8]\<rparr>
     \<lparr>tdims = [1], tflat = [3]\<rparr> (\<lambda>_. None) = Ok ([0], Raw [])"
    using inst[OF hyp]
    by (simp add: Read_def Read_try_def Read_catch_def Read_decode_def read_raw_def
        check_region_def region_step_def vec_get_def catalog_of_def single_file_def
        plain_dataset_def NumElements_def)
  have c: "ResourceKernel ?R ''/x'' \<lparr>tdims = [2], tflat = [4, 6]\<rparr> \<lparr>tdims = [2], tflat = [1, 2]\<rparr>
     \<lparr>tdims = [1, 2], tflat = [9, 5]\<rparr> (\<lambda>_. None) = Read ?R ''/x'' [1, 2] [3, 3] (\<lambda>_. None)"
    by (simp add: ResourceKernel_def TensorShape_ctor_def TensorShape_ok_def ReadOp_start_def
        ReadOp_stop_def ReadOp_clamp_def ReadOp_shape_def set_dim_def clamp_step_def
        num_elements_def vec_get_def vec_set_def word_sless_alt word_sle_eq upt_rec)
  have d: "ResourceKernel ?R ''/x'' \<lparr>tdims = [1], tflat = [10]\<rparr>
     \<lparr>tdims = [1], tflat = [- 9223372036854775808]\<rparr>
     \<lparr>tdims = [1], tflat = [5]\<rparr> (\<lambda>_. None) = Aborted"
    by (simp add: ResourceKernel_def TensorShape_ctor_def TensorShape_ok_def ReadOp_start_def
        ReadOp_stop_def ReadOp_clamp_def ReadOp_shape_def set_dim_def clamp_step_def
        num_elements_def vec_get_def vec_set_def word_sless_alt word_sle_eq)
  from a b c d show ?thesis by simp
qed

text \<open>
  C1 as stated fails: the sizes that \<open>stop\<close> is held against are those of the shape
  input, not the extent of the dataset. On a dataset of extent \<open>[10]\<close>, the shape input
  \<open>[4]\<close> with \<open>start = [1]\<close> and \<open>stop = [9]\<close> gives an output of shape \<open>[3]\<close>; held against the
  extent, \<open>stop\<close> would stay 9 and the shape be \<open>[8]\<close>.
\<close>

theorem ResourceKernel_shape_input_counterexample:
  "getSpace (plain_dataset (IntType 1 H5T_SGN_NONE) [10] [0, 1, 2, 3, 4, 5, 6, 7, 8, 9]) =
     Inr [10] \<and>
   ResourceKernel
     (catalog_of ''f.h5''
        (single_file ''x'' (plain_dataset (IntType 1 H5T_SGN_NONE) [10] [0, 1, 2, 3, 4, 5, 6, 7, 8, 9]))
        ''/x'' DT_UINT8 [10])
     ''/x'' \<lparr>tdims = [1], tflat = [4]\<rparr> \<lparr>tdims = [1], tflat = [1]\<rparr>
     \<lparr>tdims = [1], tflat = [9]\<rparr> (\<lambda>_. None) = Ok ([3], Raw [1, 2, 3]) \<and>
   clamp_stop 10 9 - clamp_start 1 (clamp_stop 10 9) = (8 :: int64)"
  by (simp add: ResourceKernel_def TensorShape_ctor_def TensorShape_ok_def ReadOp_start_def
      ReadOp_stop_def ReadOp_clamp_def ReadOp_shape_def set_dim_def clamp_step_def
      num_elements_def vec_get_def vec_set_def word_sless_alt word_sle_eq
      Read_def Read_try_def Read_catch_def Read_decode_def read_raw_def
      check_region_def region_step_def catalog_of_def single_file_def
      plain_dataset_def NumElements_def clamp_stop_def clamp_start_def)

text \<open>
  C10 fails on the code. For a shape of rank 2 and a stop tensor that is a vector of 2
  elements, the \<open>stop\<close> vector is constructed with 1 entry (the rank of the stop tensor)
  and then written at index 1.
\<close>

theorem ResourceKernel_stop_out_of_range:
  "ReadOp_stop [10, 10] \<lparr>tdims = [2], tflat = [5, 5]\<rparr> = Undefined \<and>
   ResourceKernel resource component \<lparr>tdims = [2], tflat = [10, 10]\<rparr>
     \<lparr>tdims = [2], tflat = [0, 0]\<rparr> \<lparr>tdims = [2], tflat = [5, 5]\<rparr> allocate_output = Undefined"
  by (simp add: ResourceKernel_def TensorShape_ctor_def TensorShape_ok_def word_sle_eq
      ReadOp_start_def ReadOp_stop_def num_elements_def vec_set_def upt_rec)




section \<open>Properties of the string decoding in \<^verbatim>\<open>Read\<close>\<close>

text \<open>When the steps before the \<^verbatim>\<open>switch\<close> on the type succeed, \<open>Read\<close> is the decoding of
  the dataset under the selection, behind the \<^verbatim>\<open>catch\<close> clauses.\<close>

lemma Read_decodes:
  assumes "columns_index r component = Some ci" "allocate_func shape = None"
      "file_image r = Some (Some fl)" "openDataSet fl component = Inr ds"
      "getDataType ds = Inr ty" "getSpace ds = Inr extent" "ci < length (dtypes r)"
      "if length shape = 0 then space = None
       else check_region start shape extent = Ok (dims, dims_start) \<and>
            selectHyperslab ds dims dims_start = None \<and> space = Some (dims_start, dims)"
  shows "Read r component start shape allocate_func =
           and_then (Read_catch (filename r)
                       (Read_decode (dtypes r ! ci) ds ty space (NumElements shape)))
                    (\<lambda>data. Ok (shape, data))"
  using assms by (auto simp: Read_def Read_try_def vec_get_def split: if_splits)


text \<open>The two \<^verbatim>\<open>while\<close> loops compute the length of the field up to its first zero byte,
  and the length of the field without its trailing zero bytes.\<close>

lemma nullterm_len_takeWhile:
  assumes "len \<le> sz" "q + sz \<le> length buf"
  shows "nullterm_len buf q sz len =
           len + length (takeWhile (\<lambda>b. b \<noteq> 0) (take (sz - len) (drop (q + len) buf)))"
  using assms
proof (induction buf q sz len rule: nullterm_len.induct)
  case (1 buf q sz len)
  show ?case
  proof (cases "len < sz")
    case False
    then show ?thesis using 1 by (simp add: nullterm_len.simps)
  next
    case True
    then have nonempty: "take (sz - len) (drop (q + len) buf) =
        buf ! (q + len) # take (sz - Suc len) (drop (q + Suc len) buf)"
      using 1(3) by (simp add: take_Suc_conv_app_nth Cons_nth_drop_Suc[symmetric] take_Cons')
    show ?thesis
    proof (cases "buf ! (q + len) = 0")
      case True
      then show ?thesis using nonempty \<open>len < sz\<close> by (simp add: nullterm_len.simps)
    next
      case False
      then have "nullterm_len buf q sz len = nullterm_len buf q sz (Suc len)"
        using \<open>len < sz\<close> by (subst nullterm_len.simps) simp
      also have "\<dots> = Suc len + length (takeWhile (\<lambda>b. b \<noteq> 0)
          (take (sz - Suc len) (drop (q + Suc len) buf)))"
        using 1(1)[OF conjI[OF \<open>len < sz\<close> False]] 1(3) \<open>len < sz\<close> by simp
      finally show ?thesis using nonempty False by simp
    qed
  qed
qed

lemma decode_nullterm:
  assumes "q + sz \<le> length buf"
  shows "string_of_ptr_len buf q (nullterm_len buf q sz 0) =
           takeWhile (\<lambda>b. b \<noteq> 0) (take sz (drop q buf))"
proof -
  let ?f = "take sz (drop q buf)"
  have n: "nullterm_len buf q sz 0 = length (takeWhile (\<lambda>b. b \<noteq> 0) ?f)"
    using nullterm_len_takeWhile[of 0 sz q buf] assms by simp
  have le: "length (takeWhile (\<lambda>b. b \<noteq> 0) ?f) \<le> sz"
    using length_takeWhile_le[of "\<lambda>b. b \<noteq> 0" ?f] by simp
  have "takeWhile (\<lambda>b. b \<noteq> 0) ?f = take (length (takeWhile (\<lambda>b. b \<noteq> 0) ?f)) ?f"
    by (rule takeWhile_eq_take)
  also have "\<dots> = take (length (takeWhile (\<lambda>b. b \<noteq> 0) ?f)) (drop q buf)"
    using le by (simp add: min_def)
  finally show ?thesis by (simp add: string_of_ptr_len_def n)
qed

lemma nullpad_len_dropWhile:
  assumes "q + len \<le> length buf"
  shows "nullpad_len buf q len =
           length (dropWhile (\<lambda>b. b = 0) (rev (take len (drop q buf))))"
  using assms
proof (induction buf q len rule: nullpad_len.induct)
  case (1 buf q len)
  show ?case
  proof (cases "0 < len")
    case False
    then show ?thesis by (simp add: nullpad_len.simps)
  next
    case True
    then have snoc: "take len (drop q buf) = take (len - 1) (drop q buf) @ [buf ! (q + (len - 1))]"
      using 1(2) take_Suc_conv_app_nth[of "len - 1" "drop q buf"] by simp
    show ?thesis
    proof (cases "buf ! (q + (len - 1)) = 0")
      case True
      then have "nullpad_len buf q len = nullpad_len buf q (len - 1)"
        using \<open>0 < len\<close> by (subst nullpad_len.simps) simp
      also have "\<dots> = length (dropWhile (\<lambda>b. b = 0) (rev (take (len - 1) (drop q buf))))"
        using 1(1)[OF conjI[OF \<open>0 < len\<close> True]] 1(2) by simp
      finally show ?thesis using snoc True by simp
    next
      case False
      then show ?thesis using snoc \<open>0 < len\<close> 1(2) by (simp add: nullpad_len.simps)
    qed
  qed
qed

lemma rev_dropWhile_rev_take:
  "rev (dropWhile P (rev xs)) = take (length (dropWhile P (rev xs))) xs"
proof -
  have "rev xs = takeWhile P (rev xs) @ dropWhile P (rev xs)" by simp
  then have "xs = rev (dropWhile P (rev xs)) @ rev (takeWhile P (rev xs))"
    by (metis rev_append rev_rev_ident)
  then have "take (length (rev (dropWhile P (rev xs)))) xs = rev (dropWhile P (rev xs))"
    by (metis append_eq_conv_conj)
  then show ?thesis by simp
qed

lemma decode_nullpad:
  assumes "q + sz \<le> length buf"
  shows "string_of_ptr_len buf q (nullpad_len buf q sz) =
           rev (dropWhile (\<lambda>b. b = 0) (rev (take sz (drop q buf))))"
proof -
  let ?f = "take sz (drop q buf)"
  let ?n = "length (dropWhile (\<lambda>b. b = 0) (rev ?f))"
  have n: "nullpad_len buf q sz = ?n"
    using nullpad_len_dropWhile[OF assms] .
  have le: "?n \<le> sz"
    using length_dropWhile_le[of "\<lambda>b. b = 0" "rev ?f"] by simp
  have "rev (dropWhile (\<lambda>b. b = 0) (rev ?f)) = take ?n ?f"
    by (rule rev_dropWhile_rev_take)
  also have "\<dots> = take ?n (drop q buf)"
    using le by (simp add: min_def)
  finally show ?thesis by (simp add: string_of_ptr_len_def n)
qed

text \<open>
  C6. Let the read of a fixed-length string dataset fill the staging buffer with
  \<open>numel\<close> fields of \<open>sz\<close> bytes. With null-terminated padding, element \<open>i\<close> is the bytes
  of field \<open>i\<close> before its first zero byte (the whole field if it has none); with null
  padding, it is field \<open>i\<close> without its trailing zero bytes, zero bytes before the end
  kept; with space padding, the call fails with \<open>InvalidArgument\<close>, whose message names
  the padding mode.
\<close>

theorem Read_decode_fixed_strings:
  assumes "read_bytes ds space = Inr buffer"
      and "length buffer = sz * numel"
  shows "Read_decode DT_STRING ds (StrType sz False H5T_STR_NULLTERM) space numel =
           Ok (Strings (map (\<lambda>i. takeWhile (\<lambda>b. b \<noteq> 0) (take sz (drop (sz * i) buffer)))
                            [0..<numel])) \<and>
         Read_decode DT_STRING ds (StrType sz False H5T_STR_NULLPAD) space numel =
           Ok (Strings (map (\<lambda>i. rev (dropWhile (\<lambda>b. b = 0) (rev (take sz (drop (sz * i) buffer)))))
                            [0..<numel])) \<and>
         Read_decode DT_STRING ds (StrType sz False H5T_STR_SPACEPAD) space numel =
           Error (InvalidArgument [Str ''string pad type not supported: '', Pad H5T_STR_SPACEPAD])"
proof -
  have fit: "sz * i + sz \<le> length buffer" if "i < numel" for i
  proof -
    have "sz * Suc i \<le> sz * numel" using that by (intro mult_le_mono2) simp
    then show ?thesis using assms(2) by simp
  qed
  have a: "map (\<lambda>i. string_of_ptr_len buffer (sz * i) (nullterm_len buffer (sz * i) sz 0)) [0..<numel] =
      map (\<lambda>i. takeWhile (\<lambda>b. b \<noteq> 0) (take sz (drop (sz * i) buffer))) [0..<numel]"
    using fit by (intro map_cong) (simp_all add: decode_nullterm)
  have b: "map (\<lambda>i. string_of_ptr_len buffer (sz * i) (nullpad_len buffer (sz * i) sz)) [0..<numel] =
      map (\<lambda>i. rev (dropWhile (\<lambda>b. b = 0) (rev (take sz (drop (sz * i) buffer))))) [0..<numel]"
    using fit by (intro map_cong) (simp_all add: decode_nullpad)
  show ?thesis
    using assms a b by (simp add: Read_decode_def decode_fixed_def)
qed

theorem Read_decode_fixed_strings_witness:
  "Read (catalog_of ''f.h5''
           (single_file ''s'' (string_dataset (StrType 5 False H5T_STR_NULLTERM) [2] [] []
              [97, 98, 0, 0, 0, 97, 0, 98, 0, 0]))
           ''/s'' DT_STRING [2])
     ''/s'' [0] [2] (\<lambda>_. None) = Ok ([2], Strings [[97, 98], [97]]) \<and>
   Read (catalog_of ''f.h5''
           (single_file ''s'' (string_dataset (StrType 5 False H5T_STR_NULLPAD) [2] [] []
              [97, 98, 0, 0, 0, 97, 0, 98, 0, 0]))
           ''/s'' DT_STRING [2])
     ''/s'' [0] [2] (\<lambda>_. None) = Ok ([2], Strings [[97, 98], [97, 0, 98]]) \<and>
   Read (catalog_of ''f.h5''
           (single_file ''s'' (string_dataset (StrType 5 False H5T_STR_SPACEPAD) [2] [] []
              [97, 98, 32, 32, 32, 97, 32, 98, 32, 32]))
           ''/s'' DT_STRING [2])
     ''/s'' [0] [2] (\<lambda>_. None) =
     Error (InvalidArgument [Str ''string pad type not supported: '', Pad H5T_STR_SPACEPAD])"
  using
    Read_decode_fixed_strings [where
      ds = "string_dataset (StrType 5 False H5T_STR_NULLTERM) [2] [] []
              [97, 98, 0, 0, 0, 97, 0, 98, 0, 0]"
      and space = "Some ([0], [2])" and buffer = "[97, 98, 0, 0, 0, 97, 0, 98, 0, 0]"
      and sz = 5 and numel = 2]
    Read_decode_fixed_strings [where
      ds = "string_dataset (StrType 5 False H5T_STR_NULLPAD) [2] [] []
              [97, 98, 0, 0, 0, 97, 0, 98, 0, 0]"
      and space = "Some ([0], [2])" and buffer = "[97, 98, 0, 0, 0, 97, 0, 98, 0, 0]"
      and sz = 5 and numel = 2]
    Read_decode_fixed_strings [where
      ds = "string_dataset (StrType 5 False H5T_STR_SPACEPAD) [2] [] []
              [97, 98, 32, 32, 32, 97, 32, 98, 32, 32]"
      and space = "Some ([0], [2])" and buffer = "[97, 98, 32, 32, 32, 97, 32, 98, 32, 32]"
      and sz = 5 and numel = 2]
  by (simp add: Read_def Read_try_def Read_catch_def check_region_def region_step_def
      vec_get_def catalog_of_def single_file_def string_dataset_def NumElements_def
      upt_rec)

text \<open>
  C7 as the code has it. For a dataset of class \<open>VLEN\<close> the decoder reads one record of
  pointer and length per element and copies exactly that many bytes from the pointer.
  For a variable-length string (class \<open>STRING\<close>) it reads one \<^verbatim>\<open>char*\<close> per element and
  copies the bytes before the first zero byte.
\<close>

theorem Read_decode_variable_strings:
  "(read_hvl ds space = Inr (recs, mem) \<and> length recs = numel \<longrightarrow>
      Read_decode DT_STRING ds (VlenType base) space numel =
        Ok (Strings (map (\<lambda>h. take (hvl_len h) (drop (hvl_p h) mem)) recs))) \<and>
   (read_char_ptrs ds space = Inr (ptrs, mem) \<and> length ptrs = numel \<longrightarrow>
      Read_decode DT_STRING ds (StrType sz True pad) space numel =
        Ok (Strings (map (\<lambda>q. takeWhile (\<lambda>b. b \<noteq> 0) (drop q mem)) ptrs)))"
proof (intro conjI impI)
  assume h: "read_hvl ds space = Inr (recs, mem) \<and> length recs = numel"
  have "map (\<lambda>i. string_of_ptr_len mem (hvl_p (recs ! i)) (hvl_len (recs ! i))) [0..<numel] =
      map (\<lambda>h. take (hvl_len h) (drop (hvl_p h) mem)) recs"
    using h by (simp add: list_eq_iff_nth_eq string_of_ptr_len_def)
  then show "Read_decode DT_STRING ds (VlenType base) space numel =
        Ok (Strings (map (\<lambda>h. take (hvl_len h) (drop (hvl_p h) mem)) recs))"
    using h by (simp add: Read_decode_def)
next
  assume h: "read_char_ptrs ds space = Inr (ptrs, mem) \<and> length ptrs = numel"
  have "map (\<lambda>i. string_of_ptr mem (ptrs ! i)) [0..<numel] =
      map (\<lambda>q. takeWhile (\<lambda>b. b \<noteq> 0) (drop q mem)) ptrs"
    using h by (simp add: list_eq_iff_nth_eq string_of_ptr_def)
  then show "Read_decode DT_STRING ds (StrType sz True pad) space numel =
        Ok (Strings (map (\<lambda>q. takeWhile (\<lambda>b. b \<noteq> 0) (drop q mem)) ptrs))"
    using h by (simp add: Read_decode_def)
qed

theorem Read_decode_variable_strings_witness:
  "Read (catalog_of ''f.h5''
           (single_file ''v'' (string_dataset (VlenType (IntType 1 H5T_SGN_NONE)) [2] []
              [\<lparr>hvl_len = 3, hvl_p = 0\<rparr>, \<lparr>hvl_len = 2, hvl_p = 3\<rparr>] [97, 0, 98, 99, 100]))
           ''/v'' DT_STRING [2])
     ''/v'' [0] [2] (\<lambda>_. None) = Ok ([2], Strings [[97, 0, 98], [99, 100]]) \<and>
   Read (catalog_of ''f.h5''
           (single_file ''v'' (string_dataset (StrType 8 True H5T_STR_NULLTERM) [2] [0, 3] []
              [97, 98, 0, 99, 0]))
           ''/v'' DT_STRING [2])
     ''/v'' [0] [2] (\<lambda>_. None) = Ok ([2], Strings [[97, 98], [99]])"
  using
    Read_decode_variable_strings [where
      ds = "string_dataset (VlenType (IntType 1 H5T_SGN_NONE)) [2] []
              [\<lparr>hvl_len = 3, hvl_p = 0\<rparr>, \<lparr>hvl_len = 2, hvl_p = 3\<rparr>] [97, 0, 98, 99, 100]"
      and space = "Some ([0], [2])" and mem = "[97, 0, 98, 99, 100]"
      and recs = "[\<lparr>hvl_len = 3, hvl_p = 0\<rparr>, \<lparr>hvl_len = 2, hvl_p = 3\<rparr>]"
      and ptrs = "[]" and numel = 2 and base = "IntType 1 H5T_SGN_NONE"]
    Read_decode_variable_strings [where
      ds = "string_dataset (StrType 8 True H5T_STR_NULLTERM) [2] [0, 3] [] [97, 98, 0, 99, 0]"
      and space = "Some ([0], [2])" and mem = "[97, 98, 0, 99, 0]"
      and recs = "[]" and ptrs = "[0, 3]" and numel = 2 and sz = 8 and pad = H5T_STR_NULLTERM]
  by (simp add: Read_def Read_try_def Read_catch_def check_region_def region_step_def
      vec_get_def catalog_of_def single_file_def string_dataset_def NumElements_def
      upt_rec)

text \<open>
  C7 as stated fails for variable-length strings: an element whose memory holds the
  three bytes \<open>a\<close>, zero, \<open>b\<close> and the terminator is decoded as \<open>a\<close>, not as the three bytes
  that a record of length 3 at that pointer denotes.
\<close>

theorem Read_variable_string_counterexample:
  "Read (catalog_of ''f.h5''
           (single_file ''v'' (string_dataset (StrType 8 True H5T_STR_NULLTERM) [1] [0]
              [\<lparr>hvl_len = 3, hvl_p = 0\<rparr>] [97, 0, 98, 0]))
           ''/v'' DT_STRING [1])
     ''/v'' [0] [1] (\<lambda>_. None) = Ok ([1], Strings [[97]]) \<and>
   string_of_ptr_len [97, 0, 98, 0] 0 3 = [97, 0, 98]"
  by (simp add: Read_def Read_try_def Read_catch_def Read_decode_def check_region_def
      region_step_def vec_get_def catalog_of_def single_file_def string_dataset_def
      NumElements_def string_of_ptr_def string_of_ptr_len_def)

section \<open>Properties of the exception handling in \<^verbatim>\<open>Read\<close>\<close>






section \<open>\<^verbatim>\<open>Init\<close> and the status of the walk\<close>

text \<open>A failure of \<open>Init\<close> leaves the index of paths as it was.\<close>

lemma Init_loop_columns_index: "columns_index (snd (Init_loop fl ds r)) = columns_index r"
  by (induction ds arbitrary: r) (auto split: result.splits)

lemma Init_failure_keeps_index:
  assumes "fst (Init env input r) \<noteq> Ok ()"
  shows "columns_index (snd (Init env input r)) = columns_index r"
proof (cases "HDF5FileImage env input []")
  case (Ok img)
  show ?thesis
  proof (cases img)
    case None
    with Ok show ?thesis by (simp add: Init_def)
  next
    case (Some fl)
    show ?thesis
    proof (cases "getObjinfo fl")
      case (Inl e)
      with Ok Some show ?thesis by (simp add: Init_def)
    next
      case (Inr addr)
      let ?data = "snd (H5Literate (links fl) addr (HDF5Iterate_ctor addr))"
      let ?r1 = "r\<lparr>filename := input, file_image := Some (Some fl)\<rparr>"
      obtain out r' where l: "Init_loop fl (datasets ?data) ?r1 = (out, r')"
        by (cases "Init_loop fl (datasets ?data) ?r1")
      then have ci: "columns_index r' = columns_index r"
        using Init_loop_columns_index[of fl "datasets ?data" ?r1] by simp
      show ?thesis
      proof (cases out)
        case (Ok u)
        with \<open>HDF5FileImage env input [] = Ok img\<close> Some Inr l assms show ?thesis
          by (simp add: Init_def split_beta)
      qed (use \<open>HDF5FileImage env input [] = Ok img\<close> Some Inr l ci in
            \<open>simp_all add: Init_def split_beta\<close>)
    qed
  qed
qed (simp_all add: Init_def)

text \<open>
  C9 fails on the code. The root group links the dataset \<open>a\<close>, then a name whose object
  information cannot be read, then the dataset \<open>b\<close>. The walk stops with status -1
  after \<open>a\<close>; \<open>Init\<close> returns OK, and the index answers for \<open>/a\<close> and has no \<open>/b\<close>.
\<close>

theorem Init_ignores_walk_error:
  "fst (H5Literate (links broken_walk_file) 0 (HDF5Iterate_ctor 0)) = - 1 \<and>
   fst (Init (local_env broken_walk_file) ''f.h5'' HDF5ReadableResource_ctor) = Ok () \<and>
   Spec (snd (Init (local_env broken_walk_file) ''f.h5'' HDF5ReadableResource_ctor)) ''/a'' =
     Ok ([10], DT_INT8) \<and>
   columns_index (snd (Init (local_env broken_walk_file) ''f.h5'' HDF5ReadableResource_ctor)) ''/b'' =
     None"
  by (simp add: Init_def HDF5FileImage_def local_env_def broken_walk_file_def H5Literate_def
      Iterate.simps groups_at_def HDF5Iterate_ctor_def HDF5ReadableResource_ctor_def
      Init_dataset_def plain_dataset_def classify_integer_def Spec_def
      TensorShape_ctor_def TensorShape_ok_def word_sle_eq)



section \<open>Properties of the walker\<close>

lemma walk_post_refl: "walk_post f ls p p"
  by (simp add: walk_post_def group_listing_def)

lemma dataset_paths_Cons:
  "mset (dataset_paths s (l # ls)) = mset (dataset_paths s [l]) + mset (dataset_paths s ls)"
  by (simp add: dataset_paths_def)

lemma walk_post_weaken:
  assumes "walk_post f [l] p p'"
  shows "walk_post f (l # ls) p p'"
proof -
  from assms obtain new where n: "datasets p' = datasets p @ new"
    "mset new \<subseteq># mset (dataset_paths (the (groups p (parent p))) [l]) +
                     group_listing f (groups p') (dom (groups p') - dom (groups p))"
    by (auto simp: walk_post_def)
  have "mset (dataset_paths (the (groups p (parent p))) [l]) \<subseteq>#
        mset (dataset_paths (the (groups p (parent p))) (l # ls))"
    by (subst (2) dataset_paths_Cons) simp
  then have "mset new \<subseteq># mset (dataset_paths (the (groups p (parent p))) (l # ls)) +
                     group_listing f (groups p') (dom (groups p') - dom (groups p))"
    using n(2) by (meson mset_subset_eq_mono_add subset_mset.order_refl subset_mset.order_trans)
  with assms n(1) show ?thesis by (auto simp: walk_post_def)
qed

lemma group_listing_cong:
  assumes "m \<subseteq>\<^sub>m m'" "A \<subseteq> dom m"
  shows "group_listing f m' A = group_listing f m A"
  unfolding group_listing_def
proof (rule sum.cong)
  fix a assume "a \<in> A"
  then have "a \<in> dom m" using assms(2) by blast
  then have "m' a = m a" using assms(1) unfolding map_le_def by metis
  then show "mset (dataset_paths (the (m' a)) (links_of f a)) =
      mset (dataset_paths (the (m a)) (links_of f a))" by simp
qed simp

lemma walk_post_trans:
  assumes a: "walk_post f [l] p p'" and b: "walk_post f ls p' p''"
      and par: "parent p \<in> dom (groups p)"
  shows "walk_post f (l # ls) p p''"
proof -
  let ?G = "dom (groups p)" and ?G' = "dom (groups p')" and ?G'' = "dom (groups p'')"
  let ?s = "the (groups p (parent p))"
  from a obtain new1 where n1: "datasets p' = datasets p @ new1"
    "mset new1 \<subseteq># mset (dataset_paths ?s [l]) + group_listing f (groups p') (?G' - ?G)"
    and a': "parent p' = parent p" "groups p \<subseteq>\<^sub>m groups p'" "finite (?G' - ?G)"
    by (auto simp: walk_post_def)
  from b obtain new2 where n2: "datasets p'' = datasets p' @ new2"
    "mset new2 \<subseteq># mset (dataset_paths (the (groups p' (parent p'))) ls) +
        group_listing f (groups p'') (?G'' - ?G')"
    and b': "parent p'' = parent p'" "groups p' \<subseteq>\<^sub>m groups p''" "finite (?G'' - ?G')"
    by (auto simp: walk_post_def)
  have sub: "?G \<subseteq> ?G'" "?G' \<subseteq> ?G''"
    using a'(2) b'(2) by (auto simp: map_le_def dom_def)
  have s': "the (groups p' (parent p')) = ?s"
    using a'(1,2) par by (auto simp: map_le_def)
  have split: "?G'' - ?G = (?G' - ?G) \<union> (?G'' - ?G')" "(?G' - ?G) \<inter> (?G'' - ?G') = {}"
    using sub by auto
  have l1: "group_listing f (groups p'') (?G' - ?G) = group_listing f (groups p') (?G' - ?G)"
    using b'(2) by (intro group_listing_cong) auto
  have "group_listing f (groups p'') (?G'' - ?G) =
      group_listing f (groups p'') (?G' - ?G) + group_listing f (groups p'') (?G'' - ?G')"
    unfolding group_listing_def split(1)
    using a'(3) b'(3) split(2) by (rule sum.union_disjoint)
  then have tot: "group_listing f (groups p'') (?G'' - ?G) =
      group_listing f (groups p') (?G' - ?G) + group_listing f (groups p'') (?G'' - ?G')"
    using l1 by simp
  have "mset (new1 @ new2) \<subseteq>#
      (mset (dataset_paths ?s [l]) + group_listing f (groups p') (?G' - ?G)) +
      (mset (dataset_paths ?s ls) + group_listing f (groups p'') (?G'' - ?G'))"
    using n1(2) n2(2) s' by (simp add: mset_subset_eq_mono_add)
  also have "\<dots> = mset (dataset_paths ?s (l # ls)) + group_listing f (groups p'') (?G'' - ?G)"
    unfolding tot dataset_paths_Cons[of ?s l ls] by (simp add: ac_simps)
  finally have "mset (new1 @ new2) \<subseteq>#
      mset (dataset_paths ?s (l # ls)) + group_listing f (groups p'') (?G'' - ?G)" .
  moreover have "datasets p'' = datasets p @ (new1 @ new2)" using n1(1) n2(1) by simp
  moreover have "finite (?G'' - ?G)" using split(1) a'(3) b'(3) by simp
  moreover have "groups p \<subseteq>\<^sub>m groups p''" using a'(2) b'(2) by (rule map_le_trans)
  ultimately show ?thesis using a'(1) b'(1) unfolding walk_post_def
    by (intro conjI exI[where x = "new1 @ new2"]) simp_all
qed

lemma groups_at_present: "m k = Some s \<Longrightarrow> groups_at m k = (m, s)"
  by (simp add: groups_at_def)

lemma walk_post_dataset:
  assumes "groups p (parent p) = Some s" "ltype l = H5O_TYPE_DATASET"
  shows "walk_post f [l] p (p\<lparr>groups := groups p, datasets := datasets p @ [s @ ''/'' @ lname l]\<rparr>)"
  using assms by (simp add: walk_post_def dataset_paths_def group_listing_def)

lemma walk_post_group:
  assumes s: "groups p (parent p) = Some s" and new: "groups p (laddr l) = None"
      and ty: "ltype l = H5O_TYPE_GROUP"
      and p1: "p1 = p\<lparr>groups := (groups p)(laddr l \<mapsto> s @ ''/'' @ lname l), parent := laddr l\<rparr>"
      and inner: "walk_post f (links_of f (laddr l)) p1 p2"
  shows "walk_post f [l] p (p2\<lparr>parent := parent p\<rparr>)"
proof -
  let ?a = "laddr l"
  let ?G = "dom (groups p)" and ?G1 = "dom (groups p1)" and ?G2 = "dom (groups p2)"
  from inner obtain new where n: "datasets p2 = datasets p1 @ new"
    "mset new \<subseteq># mset (dataset_paths (the (groups p1 (parent p1))) (links_of f ?a)) +
        group_listing f (groups p2) (?G2 - ?G1)"
    and i': "groups p1 \<subseteq>\<^sub>m groups p2" "finite (?G2 - ?G1)"
    by (auto simp: walk_post_def)
  have g1: "?G1 = insert ?a ?G" by (simp add: p1)
  have le: "groups p \<subseteq>\<^sub>m groups p1" using new by (auto simp: p1 map_le_def)
  have sub: "?G1 \<subseteq> ?G2" using i'(1) by (auto simp: map_le_def dom_def)
  have anew: "?a \<notin> ?G" using new by auto
  have split: "?G2 - ?G = insert ?a (?G2 - ?G1)" "?a \<notin> ?G2 - ?G1"
    using sub g1 anew by auto
  have p2a: "groups p2 ?a = Some (s @ ''/'' @ lname l)"
    using i'(1) by (auto simp: map_le_def p1 dom_def)
  have "group_listing f (groups p2) (?G2 - ?G) =
      mset (dataset_paths (the (groups p2 ?a)) (links_of f ?a)) +
      group_listing f (groups p2) (?G2 - ?G1)"
    unfolding group_listing_def split(1) using i'(2) split(2) by (rule sum.insert)
  moreover have "the (groups p1 (parent p1)) = the (groups p2 ?a)"
    by (simp add: p2a) (simp add: p1)
  ultimately have "mset new \<subseteq># group_listing f (groups p2) (?G2 - ?G)"
    using n(2) by simp
  then have "mset new \<subseteq># mset (dataset_paths (the (groups p (parent p))) [l]) +
      group_listing f (groups p2) (?G2 - ?G)"
    using ty by (simp add: dataset_paths_def)
  moreover have "datasets p2 = datasets p @ new" using n(1) by (simp add: p1)
  moreover have "finite (?G2 - ?G)" using split(1) i'(2) by simp
  moreover have "groups p \<subseteq>\<^sub>m groups p2" using le i'(1) by (rule map_le_trans)
  ultimately show ?thesis unfolding walk_post_def
    by (intro conjI exI[where x = new]) simp_all
qed

text \<open>The cases of \<open>Iterate\<close>, when the current parent has its path.\<close>

lemma Iterate_seen:
  "ltype l = H5O_TYPE_GROUP \<Longrightarrow> groups p (laddr l) \<noteq> None \<Longrightarrow> Iterate f l p = (lerr l, p)"
  by (auto simp: Iterate.simps)

lemma Iterate_other:
  "ltype l \<noteq> H5O_TYPE_GROUP \<Longrightarrow> ltype l \<noteq> H5O_TYPE_DATASET \<Longrightarrow> Iterate f l p = (lerr l, p)"
  by (cases "ltype l") (simp_all add: Iterate.simps)

lemma Iterate_dataset:
  "ltype l = H5O_TYPE_DATASET \<Longrightarrow> groups p (parent p) = Some s \<Longrightarrow>
     Iterate f l p = (lerr l, p\<lparr>groups := groups p, datasets := datasets p @ [s @ ''/'' @ lname l]\<rparr>)"
  by (simp add: Iterate.simps groups_at_def)

lemma Iterate_descend:
  "ltype l = H5O_TYPE_GROUP \<Longrightarrow> groups p (laddr l) = None \<Longrightarrow> groups p (parent p) = Some s \<Longrightarrow>
     Iterate f l p =
       (let p1 = p\<lparr>groups := (groups p)(laddr l \<mapsto> s @ ''/'' @ lname l), parent := laddr l\<rparr>;
            r = (case map_of f (laddr l) of
                   None \<Rightarrow> (- 1, p1)
                 | Some ls \<Rightarrow> H5Literate_links f ls p1)
        in (fst r, (snd r)\<lparr>parent := parent p\<rparr>))"
  by (simp add: Iterate.simps groups_at_def split_beta Let_def split: option.splits)


text \<open>The invariant of the walk, by induction along the recursion of the two functions.\<close>

lemma walk_invariant:
  "parent p \<in> dom (groups p) \<Longrightarrow> walk_post f ls p (snd (H5Literate_links f ls p))"
  "parent p \<in> dom (groups p) \<Longrightarrow> walk_post f [l] p (snd (Iterate f l p))"
proof (induction f ls p and f l p rule: H5Literate_links_Iterate.induct)
  case (1 f p)
  show ?case by (simp add: walk_post_refl)
next
  case (2 f l ls p)
  obtain err p' where it: "Iterate f l p = (err, p')" by (cases "Iterate f l p")
  have q: "walk_post f [l] p p'" using 2(1)[OF 2(3)] it by simp
  show ?case
  proof (cases "err = 0")
    case False
    then show ?thesis using it q by (simp add: walk_post_weaken)
  next
    case True
    have par': "parent p' \<in> dom (groups p')"
      using q 2(3) by (auto simp: walk_post_def map_le_def dom_def)
    have "walk_post f ls p' (snd (H5Literate_links f ls p'))"
      using 2(2)[of err p'] it True par' by simp
    then have "walk_post f (l # ls) p (snd (H5Literate_links f ls p'))"
      by (rule walk_post_trans[OF q _ 2(3)])
    then show ?thesis using it True by simp
  qed
next
  case (3 f l p)
  from 3(2) obtain s where s: "groups p (parent p) = Some s" by auto
  have ga: "groups_at (groups p) (parent p) = (groups p, s)"
    using s by (simp add: groups_at_def)
  show ?case
  proof (cases "ltype l = H5O_TYPE_GROUP")
    case grp: True
    show ?thesis
    proof (cases "groups p (laddr l) = None")
      case False
      then show ?thesis using grp by (simp add: Iterate_seen walk_post_refl)
    next
      case True
      let ?p1 = "p\<lparr>groups := (groups p)(laddr l \<mapsto> s @ ''/'' @ lname l), parent := laddr l\<rparr>"
      have par1: "parent ?p1 \<in> dom (groups ?p1)" by simp
      show ?thesis
      proof (cases "map_of f (laddr l)")
        case None
        have "walk_post f (links_of f (laddr l)) ?p1 ?p1" by (rule walk_post_refl)
        then have "walk_post f [l] p (?p1\<lparr>parent := parent p\<rparr>)"
          using s True grp by (rule walk_post_group[where ?p1.0 = ?p1, OF _ _ _ refl, rotated 3])
        then show ?thesis using None
          by (simp add: Iterate_descend[OF grp True s] Let_def)
      next
        case (Some ls)
        have "walk_post f ls ?p1 (snd (H5Literate_links f ls ?p1))"
          by (rule 3(1)[OF grp True refl refl ga[symmetric] refl Some par1])
        then have "walk_post f (links_of f (laddr l)) ?p1 (snd (H5Literate_links f ls ?p1))"
          using Some by (simp add: links_of_def)
        then have "walk_post f [l] p ((snd (H5Literate_links f ls ?p1))\<lparr>parent := parent p\<rparr>)"
          using s True grp by (rule walk_post_group[where ?p1.0 = ?p1, OF _ _ _ refl, rotated 3])
        then show ?thesis using Some
          by (simp add: Iterate_descend[OF grp True s] Let_def)
      qed
    qed
  next
    case False
    show ?thesis
    proof (cases "ltype l = H5O_TYPE_DATASET")
      case True
      then show ?thesis using walk_post_dataset[OF s True, of f]
        by (simp add: Iterate_dataset[OF True s])
    next
      case nd: False
      then show ?thesis using False by (simp add: Iterate_other walk_post_refl)
    qed
  qed
qed


text \<open>
  A walk without failure. When every lookup of object information returns 0 and every
  group link leads to a group of the link tables, no call of the walker returns a
  nonzero status, and the output is the listing itself: every dataset link of every
  group reached is listed, once.
\<close>

lemma walk_eq_skip:
  "list_all (\<lambda>l. ltype l \<noteq> H5O_TYPE_DATASET) ls \<Longrightarrow> walk_eq f ls p p"
  by (simp add: walk_eq_def group_listing_def dataset_paths_def list_all_iff)

lemma walk_eq_trans:
  assumes a: "walk_eq f [l] p p'" and b: "walk_eq f ls p' p''"
      and par: "parent p \<in> dom (groups p)"
  shows "walk_eq f (l # ls) p p''"
proof -
  let ?G = "dom (groups p)" and ?G' = "dom (groups p')" and ?G'' = "dom (groups p'')"
  let ?s = "the (groups p (parent p))"
  from a obtain new1 where n1: "datasets p' = datasets p @ new1"
    "mset new1 = mset (dataset_paths ?s [l]) + group_listing f (groups p') (?G' - ?G)"
    and a': "parent p' = parent p" "groups p \<subseteq>\<^sub>m groups p'" "finite (?G' - ?G)"
    by (auto simp: walk_eq_def)
  from b obtain new2 where n2: "datasets p'' = datasets p' @ new2"
    "mset new2 = mset (dataset_paths (the (groups p' (parent p'))) ls) +
        group_listing f (groups p'') (?G'' - ?G')"
    and b': "parent p'' = parent p'" "groups p' \<subseteq>\<^sub>m groups p''" "finite (?G'' - ?G')"
    by (auto simp: walk_eq_def)
  have sub: "?G \<subseteq> ?G'" "?G' \<subseteq> ?G''"
    using a'(2) b'(2) by (auto simp: map_le_def dom_def)
  have s': "the (groups p' (parent p')) = ?s"
    using a'(1,2) par by (auto simp: map_le_def)
  have split: "?G'' - ?G = (?G' - ?G) \<union> (?G'' - ?G')" "(?G' - ?G) \<inter> (?G'' - ?G') = {}"
    using sub by auto
  have l1: "group_listing f (groups p'') (?G' - ?G) = group_listing f (groups p') (?G' - ?G)"
    using b'(2) by (intro group_listing_cong) auto
  have "group_listing f (groups p'') (?G'' - ?G) =
      group_listing f (groups p'') (?G' - ?G) + group_listing f (groups p'') (?G'' - ?G')"
    unfolding group_listing_def split(1)
    using a'(3) b'(3) split(2) by (rule sum.union_disjoint)
  then have tot: "group_listing f (groups p'') (?G'' - ?G) =
      group_listing f (groups p') (?G' - ?G) + group_listing f (groups p'') (?G'' - ?G')"
    using l1 by simp
  have "mset (new1 @ new2) =
      (mset (dataset_paths ?s [l]) + group_listing f (groups p') (?G' - ?G)) +
      (mset (dataset_paths ?s ls) + group_listing f (groups p'') (?G'' - ?G'))"
    using n1(2) n2(2) s' by simp
  also have "\<dots> = mset (dataset_paths ?s (l # ls)) + group_listing f (groups p'') (?G'' - ?G)"
    unfolding tot dataset_paths_Cons[of ?s l ls] by (simp add: ac_simps)
  finally have "mset (new1 @ new2) =
      mset (dataset_paths ?s (l # ls)) + group_listing f (groups p'') (?G'' - ?G)" .
  moreover have "datasets p'' = datasets p @ (new1 @ new2)" using n1(1) n2(1) by simp
  moreover have "finite (?G'' - ?G)" using split(1) a'(3) b'(3) by simp
  moreover have "groups p \<subseteq>\<^sub>m groups p''" using a'(2) b'(2) by (rule map_le_trans)
  ultimately show ?thesis using a'(1) b'(1) unfolding walk_eq_def
    by (intro conjI exI[where x = "new1 @ new2"]) simp_all
qed

lemma walk_eq_dataset:
  assumes "groups p (parent p) = Some s" "ltype l = H5O_TYPE_DATASET"
  shows "walk_eq f [l] p (p\<lparr>groups := groups p, datasets := datasets p @ [s @ ''/'' @ lname l]\<rparr>)"
  using assms by (simp add: walk_eq_def dataset_paths_def group_listing_def)

lemma walk_eq_group:
  assumes s: "groups p (parent p) = Some s" and new: "groups p (laddr l) = None"
      and ty: "ltype l = H5O_TYPE_GROUP"
      and p1: "p1 = p\<lparr>groups := (groups p)(laddr l \<mapsto> s @ ''/'' @ lname l), parent := laddr l\<rparr>"
      and inner: "walk_eq f (links_of f (laddr l)) p1 p2"
  shows "walk_eq f [l] p (p2\<lparr>parent := parent p\<rparr>)"
proof -
  let ?a = "laddr l"
  let ?G = "dom (groups p)" and ?G1 = "dom (groups p1)" and ?G2 = "dom (groups p2)"
  from inner obtain new where n: "datasets p2 = datasets p1 @ new"
    "mset new = mset (dataset_paths (the (groups p1 (parent p1))) (links_of f ?a)) +
        group_listing f (groups p2) (?G2 - ?G1)"
    and i': "groups p1 \<subseteq>\<^sub>m groups p2" "finite (?G2 - ?G1)"
    by (auto simp: walk_eq_def)
  have g1: "?G1 = insert ?a ?G" by (simp add: p1)
  have le: "groups p \<subseteq>\<^sub>m groups p1" using new by (auto simp: p1 map_le_def)
  have sub: "?G1 \<subseteq> ?G2" using i'(1) by (auto simp: map_le_def dom_def)
  have anew: "?a \<notin> ?G" using new by auto
  have split: "?G2 - ?G = insert ?a (?G2 - ?G1)" "?a \<notin> ?G2 - ?G1"
    using sub g1 anew by auto
  have p2a: "groups p2 ?a = Some (s @ ''/'' @ lname l)"
    using i'(1) by (auto simp: map_le_def p1 dom_def)
  have "group_listing f (groups p2) (?G2 - ?G) =
      mset (dataset_paths (the (groups p2 ?a)) (links_of f ?a)) +
      group_listing f (groups p2) (?G2 - ?G1)"
    unfolding group_listing_def split(1) using i'(2) split(2) by (rule sum.insert)
  moreover have "the (groups p1 (parent p1)) = the (groups p2 ?a)"
    by (simp add: p2a) (simp add: p1)
  ultimately have "mset new = group_listing f (groups p2) (?G2 - ?G)"
    using n(2) by simp
  then have "mset new = mset (dataset_paths (the (groups p (parent p))) [l]) +
      group_listing f (groups p2) (?G2 - ?G)"
    using ty by (simp add: dataset_paths_def)
  moreover have "datasets p2 = datasets p @ new" using n(1) by (simp add: p1)
  moreover have "finite (?G2 - ?G)" using split(1) i'(2) by simp
  moreover have "groups p \<subseteq>\<^sub>m groups p2" using le i'(1) by (rule map_le_trans)
  ultimately show ?thesis unfolding walk_eq_def
    by (intro conjI exI[where x = new]) simp_all
qed

lemma links_ok_at: "links_ok f \<Longrightarrow> map_of f a = Some ls \<Longrightarrow> list_all (link_ok f) ls"
  by (auto simp: links_ok_def list_all_iff dest!: map_of_SomeD)

lemma walk_exact:
  "parent p \<in> dom (groups p) \<Longrightarrow> links_ok f \<Longrightarrow> list_all (link_ok f) ls \<Longrightarrow>
     fst (H5Literate_links f ls p) = 0 \<and> walk_eq f ls p (snd (H5Literate_links f ls p))"
  "parent p \<in> dom (groups p) \<Longrightarrow> links_ok f \<Longrightarrow> link_ok f l \<Longrightarrow>
     fst (Iterate f l p) = 0 \<and> walk_eq f [l] p (snd (Iterate f l p))"
proof (induction f ls p and f l p rule: H5Literate_links_Iterate.induct)
  case (1 f p)
  show ?case by (simp add: walk_eq_skip)
next
  case (2 f l ls p)
  obtain err p' where it: "Iterate f l p = (err, p')" by (cases "Iterate f l p")
  have lk: "link_ok f l" "list_all (link_ok f) ls" using 2(5) by simp_all
  have q: "err = 0" "walk_eq f [l] p p'" using 2(1)[OF 2(3,4) lk(1)] it by simp_all
  have par': "parent p' \<in> dom (groups p')"
    using q(2) 2(3) by (auto simp: walk_eq_def map_le_def dom_def)
  have r: "fst (H5Literate_links f ls p') = 0" "walk_eq f ls p' (snd (H5Literate_links f ls p'))"
    using 2(2)[of err p'] it q(1) par' 2(4) lk(2) by simp_all
  have "walk_eq f (l # ls) p (snd (H5Literate_links f ls p'))"
    using r(2) by (rule walk_eq_trans[OF q(2) _ 2(3)])
  then show ?case using it q(1) r(1) by simp
next
  case (3 f l p)
  from 3(2) obtain s where s: "groups p (parent p) = Some s" by auto
  have ga: "groups_at (groups p) (parent p) = (groups p, s)"
    using s by (simp add: groups_at_def)
  have e0: "lerr l = 0" using 3(4) by (simp add: link_ok_def)
  show ?case
  proof (cases "ltype l = H5O_TYPE_GROUP")
    case grp: True
    show ?thesis
    proof (cases "groups p (laddr l) = None")
      case False
      then show ?thesis using grp e0 by (simp add: Iterate_seen walk_eq_skip)
    next
      case True
      let ?p1 = "p\<lparr>groups := (groups p)(laddr l \<mapsto> s @ ''/'' @ lname l), parent := laddr l\<rparr>"
      have par1: "parent ?p1 \<in> dom (groups ?p1)" by simp
      obtain ls where Some: "map_of f (laddr l) = Some ls"
        using 3(4) grp by (auto simp: link_ok_def)
      have lso: "list_all (link_ok f) ls" using 3(3) Some by (rule links_ok_at)
      have in1: "fst (H5Literate_links f ls ?p1) = 0 \<and>
          walk_eq f ls ?p1 (snd (H5Literate_links f ls ?p1))"
        by (rule 3(1)[OF grp True refl refl ga[symmetric] refl Some par1 3(3) lso])
      then have "walk_eq f (links_of f (laddr l)) ?p1 (snd (H5Literate_links f ls ?p1))"
        using Some by (simp add: links_of_def)
      then have "walk_eq f [l] p ((snd (H5Literate_links f ls ?p1))\<lparr>parent := parent p\<rparr>)"
        using s True grp by (rule walk_eq_group[where ?p1.0 = ?p1, OF _ _ _ refl, rotated 3])
      then show ?thesis using Some in1
        by (simp add: Iterate_descend[OF grp True s] Let_def)
    qed
  next
    case False
    show ?thesis
    proof (cases "ltype l = H5O_TYPE_DATASET")
      case True
      then show ?thesis using walk_eq_dataset[OF s True, of f] e0
        by (simp add: Iterate_dataset[OF True s])
    next
      case nd: False
      then show ?thesis using False e0 by (simp add: Iterate_other walk_eq_skip)
    qed
  qed
qed

lemma walk_exact_root:
  assumes "links_ok f"
  shows "mset (datasets (snd (H5Literate f root (HDF5Iterate_ctor root)))) =
           group_listing f (groups (snd (H5Literate f root (HDF5Iterate_ctor root))))
             (dom (groups (snd (H5Literate f root (HDF5Iterate_ctor root)))))"
proof -
  let ?p0 = "HDF5Iterate_ctor root"
  let ?p' = "snd (H5Literate f root ?p0)"
  have post: "walk_eq f (links_of f root) ?p0 ?p'"
  proof (cases "map_of f root")
    case None
    then show ?thesis by (simp add: H5Literate_def links_of_def walk_eq_skip)
  next
    case (Some ls)
    have "parent ?p0 \<in> dom (groups ?p0)" by (simp add: HDF5Iterate_ctor_def)
    moreover have "list_all (link_ok f) ls" using assms Some by (rule links_ok_at)
    ultimately have "walk_eq f ls ?p0 (snd (H5Literate_links f ls ?p0))"
      using walk_exact(1)[of ?p0 f ls] assms by simp
    then show ?thesis using Some by (simp add: H5Literate_def links_of_def)
  qed
  let ?G = "dom (groups ?p')"
  have d0: "dom (groups ?p0) = {root}" "groups ?p0 root = Some []" "datasets ?p0 = []"
    "parent ?p0 = root"
    by (simp_all add: HDF5Iterate_ctor_def)
  from post obtain new where n: "datasets ?p' = datasets ?p0 @ new"
      "mset new = mset (dataset_paths (the (groups ?p0 (parent ?p0))) (links_of f root)) +
          group_listing f (groups ?p') (?G - dom (groups ?p0))"
    and le: "groups ?p0 \<subseteq>\<^sub>m groups ?p'" and fin: "finite (?G - dom (groups ?p0))"
    unfolding walk_eq_def by blast
  have r: "groups ?p' root = Some []"
    using le d0(1,2) by (auto simp: map_le_def)
  then have ins: "?G = insert root (?G - {root})" by auto
  have finG: "finite ?G" using fin d0(1) by simp
  have "group_listing f (groups ?p') (insert root (?G - {root})) =
      mset (dataset_paths (the (groups ?p' root)) (links_of f root)) +
      group_listing f (groups ?p') (?G - {root})"
    unfolding group_listing_def using finG by (intro sum.insert) auto
  then have "group_listing f (groups ?p') ?G =
      mset (dataset_paths [] (links_of f root)) + group_listing f (groups ?p') (?G - {root})"
    using ins r by simp
  then show ?thesis using n d0 by simp
qed


text \<open>
  C3 as the code has it. \<open>H5Literate_links\<close> and \<open>Iterate\<close> are total on every link table,
  cyclic or not (their termination is proved with their definition). A group link
  whose address has been seen is skipped: the state is returned as it is. A dataset
  link is not looked up by address: in every state, whatever its address, the call
  appends its path under the current parent to the output and returns the status of
  the link. For the walk from the root: the groups reached are finitely many, and the
  output is contained, as a multiset, in the listing in which every group reached
  contributes each of its dataset links once under its recorded path; so the output
  has at most as many entries as the groups reached have dataset links. When no
  lookup fails and every group link leads to a group of the link tables, the output
  is that listing.
\<close>

theorem walk_lists_group_once:
  "(ltype l = H5O_TYPE_GROUP \<and> groups p (laddr l) \<noteq> None \<longrightarrow> Iterate f l p = (lerr l, p)) \<and>
   (ltype l = H5O_TYPE_DATASET \<longrightarrow>
      fst (Iterate f l p) = lerr l \<and>
      datasets (snd (Iterate f l p)) =
        datasets p @ [snd (groups_at (groups p) (parent p)) @ ''/'' @ lname l]) \<and>
   (let p' = snd (H5Literate f root (HDF5Iterate_ctor root)) in
      finite (dom (groups p')) \<and>
      mset (datasets p') \<subseteq># group_listing f (groups p') (dom (groups p')) \<and>
      length (datasets p') \<le>
        (\<Sum>a\<in>dom (groups p'). length (filter (\<lambda>l. ltype l = H5O_TYPE_DATASET) (links_of f a))) \<and>
      (links_ok f \<longrightarrow>
         mset (datasets p') = group_listing f (groups p') (dom (groups p'))))"
proof -
  let ?p0 = "HDF5Iterate_ctor root"
  let ?p' = "snd (H5Literate f root ?p0)"
  have post: "walk_post f (links_of f root) ?p0 ?p'"
  proof (cases "map_of f root")
    case None
    then show ?thesis by (simp add: H5Literate_def walk_post_refl)
  next
    case (Some ls)
    have "parent ?p0 \<in> dom (groups ?p0)" by (simp add: HDF5Iterate_ctor_def)
    then have "walk_post f ls ?p0 (snd (H5Literate_links f ls ?p0))" by (rule walk_invariant(1))
    then show ?thesis using Some by (simp add: H5Literate_def links_of_def)
  qed
  let ?G = "dom (groups ?p')"
  have d0: "dom (groups ?p0) = {root}" "groups ?p0 root = Some []" "datasets ?p0 = []"
    "parent ?p0 = root"
    by (simp_all add: HDF5Iterate_ctor_def)
  from post obtain new where n: "datasets ?p' = datasets ?p0 @ new"
      "mset new \<subseteq># mset (dataset_paths (the (groups ?p0 (parent ?p0))) (links_of f root)) +
          group_listing f (groups ?p') (?G - dom (groups ?p0))"
    and le: "groups ?p0 \<subseteq>\<^sub>m groups ?p'" and fin: "finite (?G - dom (groups ?p0))"
    unfolding walk_post_def by blast
  have r: "groups ?p' root = Some []"
    using le d0(1,2) by (auto simp: map_le_def)
  then have ins: "?G = insert root (?G - {root})" by auto
  have finG: "finite ?G" using fin d0(1) by simp
  have "group_listing f (groups ?p') (insert root (?G - {root})) =
      mset (dataset_paths (the (groups ?p' root)) (links_of f root)) +
      group_listing f (groups ?p') (?G - {root})"
    unfolding group_listing_def using finG by (intro sum.insert) auto
  then have "group_listing f (groups ?p') ?G =
      mset (dataset_paths [] (links_of f root)) + group_listing f (groups ?p') (?G - {root})"
    using ins r by simp
  then have sub: "mset (datasets ?p') \<subseteq># group_listing f (groups ?p') ?G"
    using n d0 by simp
  have "length (datasets ?p') = size (mset (datasets ?p'))" by simp
  also have "\<dots> \<le> size (group_listing f (groups ?p') ?G)"
    using sub by (rule size_mset_mono)
  also have "\<dots> = (\<Sum>a\<in>?G. length (filter (\<lambda>l. ltype l = H5O_TYPE_DATASET) (links_of f a)))"
    by (simp only: group_listing_def size_multiset_sum size_mset dataset_paths_def length_map)
  finally have cnt: "length (datasets ?p') \<le>
      (\<Sum>a\<in>?G. length (filter (\<lambda>l. ltype l = H5O_TYPE_DATASET) (links_of f a)))" .
  have ds: "fst (Iterate f l p) = lerr l \<and>
      datasets (snd (Iterate f l p)) =
        datasets p @ [snd (groups_at (groups p) (parent p)) @ ''/'' @ lname l]"
    if "ltype l = H5O_TYPE_DATASET"
    using that by (simp add: Iterate.simps split_beta)
  show ?thesis
    using finG sub cnt ds walk_exact_root[of f root] by (simp add: Let_def Iterate_seen)
qed

theorem walk_lists_group_once_witness:
  "datasets (snd (H5Literate
      [(0, [\<lparr>lname = ''g'', lerr = 0, ltype = H5O_TYPE_GROUP, laddr = 1\<rparr>,
            \<lparr>lname = ''h'', lerr = 0, ltype = H5O_TYPE_GROUP, laddr = 1\<rparr>]),
       (1, [\<lparr>lname = ''d'', lerr = 0, ltype = H5O_TYPE_DATASET, laddr = 5\<rparr>,
            \<lparr>lname = ''up'', lerr = 0, ltype = H5O_TYPE_GROUP, laddr = 0\<rparr>,
            \<lparr>lname = ''self'', lerr = 0, ltype = H5O_TYPE_GROUP, laddr = 1\<rparr>])]
      0 (HDF5Iterate_ctor 0))) = [''/g/d''] \<and>
   mset [''/g/d''] = group_listing
      [(0, [\<lparr>lname = ''g'', lerr = 0, ltype = H5O_TYPE_GROUP, laddr = 1\<rparr>,
            \<lparr>lname = ''h'', lerr = 0, ltype = H5O_TYPE_GROUP, laddr = 1\<rparr>]),
       (1, [\<lparr>lname = ''d'', lerr = 0, ltype = H5O_TYPE_DATASET, laddr = 5\<rparr>,
            \<lparr>lname = ''up'', lerr = 0, ltype = H5O_TYPE_GROUP, laddr = 0\<rparr>,
            \<lparr>lname = ''self'', lerr = 0, ltype = H5O_TYPE_GROUP, laddr = 1\<rparr>])]
      [0 \<mapsto> [], 1 \<mapsto> ''/g''] {0, 1} \<and>
   datasets (snd (Iterate []
      \<lparr>lname = ''d'', lerr = 0, ltype = H5O_TYPE_DATASET, laddr = 5\<rparr>
      \<lparr>datasets = [''/g/d''], groups = [0 \<mapsto> [], 1 \<mapsto> ''/g''], parent = 1\<rparr>)) =
     [''/g/d'', ''/g/d'']"
proof -
  let ?f = "[(0::nat, [\<lparr>lname = ''g'', lerr = 0, ltype = H5O_TYPE_GROUP, laddr = 1\<rparr>,
            \<lparr>lname = ''h'', lerr = 0, ltype = H5O_TYPE_GROUP, laddr = 1\<rparr>]),
       (1, [\<lparr>lname = ''d'', lerr = 0, ltype = H5O_TYPE_DATASET, laddr = 5\<rparr>,
            \<lparr>lname = ''up'', lerr = 0, ltype = H5O_TYPE_GROUP, laddr = 0\<rparr>,
            \<lparr>lname = ''self'', lerr = 0, ltype = H5O_TYPE_GROUP, laddr = 1\<rparr>])]"
  have w: "snd (H5Literate ?f 0 (HDF5Iterate_ctor 0)) =
      \<lparr>datasets = [''/g/d''], groups = [0 \<mapsto> [], 1 \<mapsto> ''/g''], parent = 0\<rparr>"
    by (simp add: H5Literate_def Iterate.simps groups_at_def HDF5Iterate_ctor_def)
  have d: "dom [0 \<mapsto> [], (1::nat) \<mapsto> ''/g''] = {0, 1}" by auto
  have "let p' = snd (H5Literate ?f 0 (HDF5Iterate_ctor 0)) in
      finite (dom (groups p')) \<and>
      mset (datasets p') \<subseteq># group_listing ?f (groups p') (dom (groups p')) \<and>
      length (datasets p') \<le>
        (\<Sum>a\<in>dom (groups p'). length (filter (\<lambda>l. ltype l = H5O_TYPE_DATASET) (links_of ?f a))) \<and>
      (links_ok ?f \<longrightarrow>
         mset (datasets p') = group_listing ?f (groups p') (dom (groups p')))"
    using walk_lists_group_once
      [of "\<lparr>lname = ''up'', lerr = 0, ltype = H5O_TYPE_GROUP, laddr = 0\<rparr>"
          "HDF5Iterate_ctor 0" ?f 0, THEN conjunct2, THEN conjunct2] .
  then have "links_ok ?f \<longrightarrow>
      mset (datasets \<lparr>datasets = [''/g/d''], groups = [0 \<mapsto> [], 1 \<mapsto> ''/g''], parent = 0\<rparr>)
      = group_listing ?f
        (groups \<lparr>datasets = [''/g/d''], groups = [0 \<mapsto> [], 1 \<mapsto> ''/g''], parent = 0\<rparr>)
        (dom (groups \<lparr>datasets = [''/g/d''], groups = [0 \<mapsto> [], 1 \<mapsto> ''/g''], parent = 0\<rparr>))"
    unfolding Let_def w by (rule conjunct2[OF conjunct2[OF conjunct2]])
  moreover have "links_ok ?f" by (simp add: links_ok_def link_ok_def)
  ultimately have a: "mset [''/g/d''] = group_listing ?f [0 \<mapsto> [], 1 \<mapsto> ''/g''] {0, 1}"
    using d by simp
  have b: "datasets (snd (Iterate []
      \<lparr>lname = ''d'', lerr = 0, ltype = H5O_TYPE_DATASET, laddr = 5\<rparr>
      \<lparr>datasets = [''/g/d''], groups = [0 \<mapsto> [], 1 \<mapsto> ''/g''], parent = 1\<rparr>)) =
     [''/g/d'', ''/g/d'']"
    using walk_lists_group_once
      [of "\<lparr>lname = ''d'', lerr = 0, ltype = H5O_TYPE_DATASET, laddr = 5\<rparr>"
          "\<lparr>datasets = [''/g/d''], groups = [0 \<mapsto> [], 1 \<mapsto> ''/g''], parent = 1\<rparr>"
          "[]" 0, THEN conjunct2, THEN conjunct1]
    by (simp add: groups_at_def)
  from a b show ?thesis using w by simp
qed

text \<open>
  C3 as stated fails for datasets: a dataset object (address 5) that the root links
  under two names is listed twice.
\<close>

theorem walk_dataset_twice_counterexample:
  "datasets (snd (H5Literate
      [(0, [\<lparr>lname = ''a'', lerr = 0, ltype = H5O_TYPE_DATASET, laddr = 5\<rparr>,
            \<lparr>lname = ''b'', lerr = 0, ltype = H5O_TYPE_DATASET, laddr = 5\<rparr>])]
      0 (HDF5Iterate_ctor 0))) = [''/a'', ''/b'']"
  by (simp add: H5Literate_def Iterate.simps groups_at_def HDF5Iterate_ctor_def)

end
